theory Spec2Isabelle
  imports Main "HOL-Library.AList" "HOL-Library.Sublist"
begin

section \<open>Python values used by the handlers\<close>

text \<open>
  A Python \<open>str\<close> is modelled as a \<open>string\<close> holding its UTF-8 encoding, so the
  non-ASCII literals of the source are byte lists.  Emptiness (truthiness), concatenation,
  substring search and suffix tests with ASCII patterns are the same on the encoding as on
  the code points.  A \<open>Path\<close> is the string of its text; file contents are strings too.
\<close>

type_synonym path = string
type_synonym bytes = string

text \<open>Truthiness of an \<open>Optional[int]\<close> (\<open>None\<close> and \<open>0\<close> are falsy) and of an
  \<open>Optional[str]\<close> (\<open>None\<close> and the empty string are falsy); \<open>a or b\<close>.\<close>

definition truthy_int :: "int option \<Rightarrow> bool" where
  "truthy_int v = (case v of None \<Rightarrow> False | Some i \<Rightarrow> i \<noteq> 0)"

definition truthy_str :: "string option \<Rightarrow> bool" where
  "truthy_str v = (case v of None \<Rightarrow> False | Some s \<Rightarrow> s \<noteq> [])"

definition py_or :: "int option \<Rightarrow> int option \<Rightarrow> int option" where
  "py_or a b = (if truthy_int a then a else b)"

text \<open>\<open>needle in haystack\<close> on strings.\<close>

fun starts_with :: "string \<Rightarrow> string \<Rightarrow> bool" where
  "starts_with [] s = True"
| "starts_with (c # cs) [] = False"
| "starts_with (c # cs) (d # ds) = (c = d \<and> starts_with cs ds)"

fun contains :: "string \<Rightarrow> string \<Rightarrow> bool" where
  "contains needle [] = (needle = [])"
| "contains needle (c # cs) = (starts_with needle (c # cs) \<or> contains needle cs)"

definition endswith :: "string \<Rightarrow> string \<Rightarrow> bool" where
  "endswith s suf = (length suf \<le> length s \<and> drop (length s - length suf) s = suf)"

text \<open>\<open>str.lower\<close>, on the ASCII letters.  No character outside ASCII lowers to one of
  the letters of the four image extensions, so the extension test below is exact.\<close>

definition lower_char :: "char \<Rightarrow> char" where
  "lower_char c =
     (case map_of (zip ''ABCDEFGHIJKLMNOPQRSTUVWXYZ'' ''abcdefghijklmnopqrstuvwxyz'') c of
        None \<Rightarrow> c | Some d \<Rightarrow> d)"

definition lower :: "string \<Rightarrow> string" where
  "lower s = map lower_char s"

text \<open>\<open>" ".join(xs)\<close> and \<open>s.rstrip('@')\<close>.\<close>

fun join_space :: "string list \<Rightarrow> string" where
  "join_space [] = []"
| "join_space [x] = x"
| "join_space (x # y # ys) = x @ '' '' @ join_space (y # ys)"

definition rstrip_at :: "string \<Rightarrow> string" where
  "rstrip_at s = rev (dropWhile (\<lambda>c. c = CHR ''@'') (rev s))"

text \<open>\<open>str(n)\<close> for an integer: decimal digits, with a minus sign.\<close>

definition digit_char :: "nat \<Rightarrow> char" where
  "digit_char d = ''0123456789'' ! (d mod 10)"

fun str_nat :: "nat \<Rightarrow> string" where
  "str_nat n = (if n < 10 then [digit_char n] else str_nat (n div 10) @ [digit_char (n mod 10)])"

definition str_int :: "int \<Rightarrow> string" where
  "str_int i = (if i < 0 then ''-'' @ str_nat (nat (- i)) else str_nat (nat i))"

subsection \<open>\<open>urlparse(url).path\<close> and \<open>Path(p).name\<close>\<close>

text \<open>
  The standard library's \<open>urllib.parse.urlparse\<close>, as far as its \<open>path\<close> component goes:
  leading control characters and spaces are stripped and tabs and line breaks removed, a
  scheme is split off at the first colon, a network location after \<open>//\<close>, then the
  fragment, the query and (for the schemes that have them) the parameters of the last
  segment.  Where the library raises \<open>ValueError\<close> the result is \<open>Inl\<close>: for a network
  location with an unmatched square bracket, for one whose bracketed host fails
  \<open>_check_bracketed_host\<close> (it is not an IPv6 or IPvFuture literal), and for a non-ASCII one
  that fails the NFKC test of \<open>_checknetloc\<close>.  These two tests of the library (they
  parse IP addresses and normalise Unicode) are the parameters \<open>host_ok\<close> and \<open>nfkc_ok\<close>,
  asked exactly where the library runs them; a string is ASCII when none of its bytes
  is above 127.
\<close>

definition is_alpha :: "char \<Rightarrow> bool" where
  "is_alpha c = (c \<in> set ''abcdefghijklmnopqrstuvwxyzABCDEFGHIJKLMNOPQRSTUVWXYZ'')"

definition scheme_char :: "char \<Rightarrow> bool" where
  "scheme_char c = (is_alpha c \<or> c \<in> set ''0123456789+-.'')"

definition c0_or_space :: "char \<Rightarrow> bool" where
  "c0_or_space c = ((of_char c :: nat) \<le> 32)"

definition unsafe_url_byte :: "char \<Rightarrow> bool" where
  "unsafe_url_byte c = (c \<in> set [CHR 0x09, CHR 0x0D, CHR 0x0A])"

definition uses_params :: "string list" where
  "uses_params = ['''', ''ftp'', ''hdl'', ''prospero'', ''http'', ''imap'', ''https'', ''shttp'',
     ''rtsp'', ''rtspu'', ''sip'', ''sips'', ''mms'', ''sftp'', ''tel'']"

definition split_scheme :: "string \<Rightarrow> string \<times> string" where
  "split_scheme url =
     (let pre = takeWhile (\<lambda>c. c \<noteq> CHR '':'') url in
      if CHR '':'' \<in> set url \<and> pre \<noteq> [] \<and> is_alpha (hd pre) \<and> list_all scheme_char pre
      then (lower pre, drop (length pre + 1) url)
      else ([], url))"

definition splitparams :: "string \<Rightarrow> string" where
  "splitparams url =
     (let seg = rev (takeWhile (\<lambda>c. c \<noteq> CHR ''/'') (rev url));
          pre = take (length url - length seg) url
      in pre @ takeWhile (\<lambda>c. c \<noteq> CHR '';'') seg)"

definition is_ascii :: "string \<Rightarrow> bool" where
  "is_ascii s = list_all (\<lambda>c. (of_char c :: nat) < 128) s"

text \<open>\<open>netloc.partition('[')[2].partition(']')[0]\<close>.\<close>

definition bracketed_host :: "string \<Rightarrow> string" where
  "bracketed_host netloc =
     takeWhile (\<lambda>c. c \<noteq> CHR '']'') (drop 1 (dropWhile (\<lambda>c. c \<noteq> CHR ''['') netloc))"

definition urlparse_path :: "(string \<Rightarrow> bool) \<Rightarrow> (string \<Rightarrow> bool) \<Rightarrow> string \<Rightarrow> string + string" where
  "urlparse_path host_ok nfkc_ok url0 =
     (let url1 = filter (\<lambda>c. \<not> unsafe_url_byte c) (dropWhile c0_or_space url0);
          (scheme, url2) = split_scheme url1;
          delim = (\<lambda>c. c \<in> set ''/?#'');
          (netloc, url3) =
             (if take 2 url2 = ''//''
              then (takeWhile (\<lambda>c. \<not> delim c) (drop 2 url2),
                    dropWhile (\<lambda>c. \<not> delim c) (drop 2 url2))
              else ([], url2))
      in if (CHR ''['' \<in> set netloc) \<noteq> (CHR '']'' \<in> set netloc)
         then Inl ''Invalid IPv6 URL''
         else if CHR ''['' \<in> set netloc \<and> CHR '']'' \<in> set netloc
                 \<and> \<not> host_ok (bracketed_host netloc)
         then Inl ''invalid bracketed host''
         else if netloc \<noteq> [] \<and> \<not> is_ascii netloc \<and> \<not> nfkc_ok netloc
         then Inl ''netloc contains invalid characters under NFKC normalization''
         else
           (let url4 = takeWhile (\<lambda>c. c \<noteq> CHR ''#'') url3;
                url5 = takeWhile (\<lambda>c. c \<noteq> CHR ''?'') url4
            in Inr (if scheme \<in> set uses_params \<and> CHR '';'' \<in> set url5
                    then splitparams url5 else url5)))"

text \<open>\<open>PurePosixPath(p).name\<close>: the last component that is neither empty nor a dot.\<close>

fun split_slash :: "string \<Rightarrow> string list" where
  "split_slash [] = [[]]"
| "split_slash (c # cs) =
     (if c = CHR ''/'' then [] # split_slash cs
      else (case split_slash cs of [] \<Rightarrow> [[c]] | p # ps \<Rightarrow> (c # p) # ps))"

definition path_name :: "path \<Rightarrow> string" where
  "path_name p =
     (case filter (\<lambda>c. c \<noteq> [] \<and> c \<noteq> ''.'') (split_slash p) of
        [] \<Rightarrow> []
      | q # qs \<Rightarrow> last (q # qs))"

text \<open>\<open>a / b\<close> on paths, for a relative \<open>b\<close>.\<close>

definition path_join :: "path \<Rightarrow> string \<Rightarrow> path" where
  "path_join a b = a @ ''/'' @ b"

section \<open>Telegram objects, the outside world and its trace\<close>

datatype message =
  Message (message_id: int) (chat_id: int) (media_group_id: "string option")
    (from_user: "int option") (reply_to_message: "message option")

record CallbackQuery =
  cq_message :: "message option"

record Update =
  inline_query :: bool
  upd_message :: "message option"
  callback_query :: "CallbackQuery option"
  effective_message :: "message option"
  effective_chat :: "int option"

record Context =
  args :: "string list option"
  bot_username :: string

datatype parse_mode = HTML | MARKDOWN_V2

datatype forced_command = IMAGINE

type_synonym media_dict = "(string \<times> path list) list"

datatype input_media =
  InputMediaPhoto bytes "string option" "string option"
| InputMediaDocument bytes string "string option"

text \<open>
  Every call that leaves the handler is an event of the trace, in call order.  The
  arguments are those of the source: for \<open>SendPhoto\<close> the chat, the photo, the caption, the
  reply target and the parse mode; for \<open>SendMediaGroup\<close> the chat, the media and the
  reply target; for \<open>DeleteMessage\<close> the chat and the message; for \<open>SendDocument\<close> the
  chat, the document, its file name, the caption and the reply target; for \<open>SendMessage\<close>
  the chat, the text, the parse mode and the reply target; for \<open>SetMessageReaction\<close> the
  chat and the message.  \<open>Sleep\<close> carries the duration in milliseconds.
\<close>

datatype call =
  CacheAdd message
| CacheGet message
| Sleep nat
| DownloadGroup message
| SendMessage int string "string option" "int option"
| SetMessageReaction int int
| InvokeModelStreaming string string string "path list" "media_dict option" forced_command
| SendStreamingResponse
| Mkdir path
| Uuid4
| HttpGet string
| WriteBytes path bytes
| ReadBytes path
| SendPhoto int bytes "string option" "int option" "string option"
| SendMediaGroup int "input_media list" "int option"
| DeleteMessage int int
| SendDocument int bytes string string "int option"

type_synonym trace = "call list"

text \<open>
  The outside world answers each call from the history of calls so far (the call being
  answered is the last element), so an answer may depend on anything that happened
  before, other handlers running during a sleep included.  A raised exception is
  \<open>Inl\<close> of its message, the text that \<open>str(e)\<close> gives.  A sent message is its message id
  (\<open>None\<close> where the helper's \<open>Optional[Message]\<close> is \<open>None\<close>); a sent media group is the
  list of its message ids.

  \<open>DATA_DIR\<close> (module \<open>settings\<close>) and the helpers of \<open>mybot.common\<close>,
  \<open>dify_service\<close> and \<open>response_service\<close> are not part of the two source files and are
  parameters here: \<open>should_ignore_command_in_group\<close>, \<open>get_media_group_messages\<close>,
  \<open>download_media_group_files\<close> (its dictionary, or \<open>None\<close>), \<open>invoke_model_streaming\<close>
  and \<open>send_streaming_response\<close>.  \<open>http_get\<close> is the request of the \<open>httpx\<close> client
  together with \<open>raise_for_status\<close>, and answers with the content of the response.
  \<open>check_bracketed_host\<close> and \<open>checknetloc_nfkc\<close> are the two host tests of
  \<open>urllib.parse\<close>, true where the library does not raise.
  \<open>add_message_to_media_group_cache\<close> and
  \<open>asyncio.sleep\<close> return nothing and are events only.  Logging is not modelled.
\<close>

record env =
  DATA_DIR :: path
  should_ignore_command_in_group :: "Update \<Rightarrow> Context \<Rightarrow> bool"
  get_media_group_messages :: "trace \<Rightarrow> message list"
  download_media_group_files :: "trace \<Rightarrow> media_dict option"
  invoke_model_streaming :: "trace \<Rightarrow> string + unit"
  send_streaming_response :: "trace \<Rightarrow> string + unit"
  bot_send_message :: "trace \<Rightarrow> string + unit"
  bot_set_message_reaction :: "trace \<Rightarrow> string + unit"
  bot_send_photo :: "trace \<Rightarrow> string + int option"
  bot_send_media_group :: "trace \<Rightarrow> string + int list"
  bot_delete_message :: "trace \<Rightarrow> string + unit"
  bot_send_document :: "trace \<Rightarrow> string + unit"
  mkdir :: "trace \<Rightarrow> string + unit"
  uuid4_hex :: "trace \<Rightarrow> string"
  http_get :: "trace \<Rightarrow> string + bytes"
  write_bytes :: "trace \<Rightarrow> string + unit"
  read_bytes :: "trace \<Rightarrow> string + bytes"
  check_bracketed_host :: "string \<Rightarrow> bool"
  checknetloc_nfkc :: "string \<Rightarrow> bool"

text \<open>An action runs on a trace and returns a value or an exception, with the trace
  extended by the calls it made.\<close>

type_synonym 'a action = "trace \<Rightarrow> (string + 'a) \<times> trace"

definition perform :: "(trace \<Rightarrow> 'a) \<Rightarrow> call \<Rightarrow> trace \<Rightarrow> 'a \<times> trace" where
  "perform answer c tr = (answer (tr @ [c]), tr @ [c])"

definition io_return :: "'a \<Rightarrow> 'a action" where
  "io_return x tr = (Inr x, tr)"

definition io_raise :: "string \<Rightarrow> 'a action" where
  "io_raise err tr = (Inl err, tr)"

definition io_bind :: "'a action \<Rightarrow> ('a \<Rightarrow> 'b action) \<Rightarrow> 'b action" where
  "io_bind m f tr = (case m tr of (Inl err, tr1) \<Rightarrow> (Inl err, tr1) | (Inr x, tr1) \<Rightarrow> f x tr1)"

text \<open>\<open>try: m except Exception as e: h(e)\<close>.\<close>

definition io_catch :: "'a action \<Rightarrow> (string \<Rightarrow> 'a action) \<Rightarrow> 'a action" where
  "io_catch m h tr = (case m tr of (Inl err, tr1) \<Rightarrow> h err tr1 | (Inr x, tr1) \<Rightarrow> (Inr x, tr1))"

section \<open>image\_generation.py: the delivery pipeline\<close>

definition caption_too_long :: string where
  "caption_too_long = ''Message caption is too long''"

definition single_label :: string where
  "single_label = [CHR 0xF0, CHR 0x9F, CHR 0x93, CHR 0x8E] @ '' Original (uncompressed)''"

definition group_label :: "nat \<Rightarrow> string" where
  "group_label n = [CHR 0xF0, CHR 0x9F, CHR 0x93, CHR 0x8E] @ '' Original files ('' @ str_nat n
     @ '' images, uncompressed)''"

definition str_parse_mode :: "parse_mode option \<Rightarrow> string" where
  "str_parse_mode pm =
     (case pm of Some HTML \<Rightarrow> ''HTML'' | Some MARKDOWN_V2 \<Rightarrow> ''MarkdownV2'' | None \<Rightarrow> ''None'')"

subsection \<open>\<open>_download_image_from_url\<close>\<close>

definition is_image_name :: "string \<Rightarrow> bool" where
  "is_image_name filename =
     (endswith (lower filename) ''.jpg'' \<or> endswith (lower filename) ''.jpeg''
      \<or> endswith (lower filename) ''.png'' \<or> endswith (lower filename) ''.webp'')"

text \<open>The file name of the target: the last component of the URL's path when it ends in an
  image extension, else the hex digits of a random UUID with \<open>.jpeg\<close> (the \<open>Uuid4\<close> call
  is made only then).\<close>

definition url_filename :: "env \<Rightarrow> string \<Rightarrow> string + string" where
  "url_filename e url =
     (case urlparse_path (check_bracketed_host e) (checknetloc_nfkc e) url of
        Inl err \<Rightarrow> Inl err | Inr p \<Rightarrow> Inr (path_name p))"

definition choose_filename :: "env \<Rightarrow> string \<Rightarrow> string action" where
  "choose_filename e url =
     io_bind (\<lambda>tr. (url_filename e url, tr)) (\<lambda>filename.
       if filename = [] \<or> \<not> is_image_name filename
       then (\<lambda>tr. case perform (uuid4_hex e) Uuid4 tr of (h, tr1) \<Rightarrow> (Inr (h @ ''.jpeg''), tr1))
       else io_return filename)"

definition download_image_from_url :: "env \<Rightarrow> string \<Rightarrow> trace \<Rightarrow> path option \<times> trace" where
  "download_image_from_url e url tr =
     (let temp_dir = path_join (DATA_DIR e) ''generated_images'' in
      case
        io_bind (perform (mkdir e) (Mkdir temp_dir)) (\<lambda>_.
        io_bind (choose_filename e url) (\<lambda>filename.
        io_bind (perform (http_get e) (HttpGet url)) (\<lambda>content.
        io_bind (perform (write_bytes e) (WriteBytes (path_join temp_dir filename) content)) (\<lambda>_.
        io_return (path_join temp_dir filename))))) tr
      of (Inr file_path, tr1) \<Rightarrow> (Some file_path, tr1)
       | (Inl err, tr1) \<Rightarrow> (None, tr1))"

text \<open>The download loop of \<open>_send_imagine_result\<close>, over the URLs it is given.\<close>

fun download_all :: "env \<Rightarrow> string list \<Rightarrow> trace \<Rightarrow> path list \<times> trace" where
  "download_all e [] tr = ([], tr)"
| "download_all e (url # urls) tr =
     (case download_image_from_url e url tr of
        (None, tr1) \<Rightarrow> download_all e urls tr1
      | (Some file_path, tr1) \<Rightarrow>
          (case download_all e urls tr1 of (rest, tr2) \<Rightarrow> (file_path # rest, tr2)))"

subsection \<open>\<open>_send_single_photo_with_caption\<close> and \<open>_send_photo_group_with_caption\<close>\<close>

definition send_single_photo_with_caption ::
  "env \<Rightarrow> int \<Rightarrow> string \<Rightarrow> int option \<Rightarrow> string \<Rightarrow> int \<Rightarrow> bytes \<Rightarrow> int option action" where
  "send_single_photo_with_caption e chat caption reply_to pm delete_message_id photo =
     io_catch
       (io_bind (perform (bot_send_photo e) (SendPhoto chat photo (Some caption) reply_to (Some pm)))
          (\<lambda>sent_message.
        io_bind (perform (bot_delete_message e) (DeleteMessage chat delete_message_id)) (\<lambda>_.
        io_return sent_message)))
       (\<lambda>err.
          if contains caption_too_long err
          then io_bind (perform (bot_send_photo e) (SendPhoto chat photo None reply_to None))
                 (\<lambda>sent_message.
               io_bind (perform (bot_delete_message e) (DeleteMessage chat delete_message_id)) (\<lambda>_.
               io_return sent_message))
          else io_raise err)"

fun read_all :: "env \<Rightarrow> path list \<Rightarrow> bytes list action" where
  "read_all e [] tr = (Inr [], tr)"
| "read_all e (file_path # rest) tr =
     (case perform (read_bytes e) (ReadBytes file_path) tr of
        (Inl err, tr1) \<Rightarrow> (Inl err, tr1)
      | (Inr b, tr1) \<Rightarrow>
          (case read_all e rest tr1 of
             (Inl err, tr2) \<Rightarrow> (Inl err, tr2)
           | (Inr bs, tr2) \<Rightarrow> (Inr (b # bs), tr2)))"

definition photo_group :: "string \<Rightarrow> string \<Rightarrow> bytes list \<Rightarrow> input_media list" where
  "photo_group caption pm photos =
     (case photos of
        [] \<Rightarrow> []
      | p # ps \<Rightarrow> InputMediaPhoto p (Some caption) (Some pm) # map (\<lambda>q. InputMediaPhoto q None None) ps)"

definition send_photo_group_with_caption ::
  "env \<Rightarrow> int \<Rightarrow> string \<Rightarrow> int option \<Rightarrow> string \<Rightarrow> int \<Rightarrow> path list \<Rightarrow> int list action" where
  "send_photo_group_with_caption e chat caption reply_to pm delete_message_id downloaded_files =
     io_bind (read_all e downloaded_files) (\<lambda>photos.
       io_catch
         (io_bind (perform (bot_send_media_group e)
                     (SendMediaGroup chat (photo_group caption pm photos) reply_to))
            (\<lambda>sent_messages.
          io_bind (perform (bot_delete_message e) (DeleteMessage chat delete_message_id)) (\<lambda>_.
          io_return sent_messages)))
         (\<lambda>err.
            if contains caption_too_long err
            then io_bind (read_all e downloaded_files) (\<lambda>photos2.
                 io_bind (perform (bot_send_media_group e)
                            (SendMediaGroup chat (map (\<lambda>q. InputMediaPhoto q None None) photos2) reply_to))
                   (\<lambda>sent_messages.
                 io_bind (perform (bot_delete_message e) (DeleteMessage chat delete_message_id)) (\<lambda>_.
                 io_return sent_messages)))
            else io_raise err))"

subsection \<open>\<open>_send_original_files\<close>\<close>

definition document_group :: "path list \<Rightarrow> bytes list \<Rightarrow> input_media list" where
  "document_group files docs =
     (case zip files docs of
        [] \<Rightarrow> []
      | (fp, d) # rest \<Rightarrow>
          InputMediaDocument d (path_name fp) (Some (group_label (length files)))
          # map (\<lambda>(fp, d). InputMediaDocument d (path_name fp) None) rest)"

text \<open>The body of the \<open>try\<close>: one attempt at the given reply target.\<close>

definition send_originals_attempt :: "env \<Rightarrow> int \<Rightarrow> path list \<Rightarrow> int option \<Rightarrow> unit action" where
  "send_originals_attempt e chat downloaded_files reply_to =
     (case downloaded_files of
        [file_path] \<Rightarrow>
          io_bind (perform (read_bytes e) (ReadBytes file_path)) (\<lambda>doc.
            perform (bot_send_document e)
              (SendDocument chat doc (path_name file_path) single_label reply_to))
      | _ \<Rightarrow>
          io_bind (read_all e downloaded_files) (\<lambda>docs.
          io_bind (perform (bot_send_media_group e)
                     (SendMediaGroup chat (document_group downloaded_files docs) reply_to)) (\<lambda>_.
          io_return ())))"

function send_original_files ::
  "env \<Rightarrow> int \<Rightarrow> path list \<Rightarrow> int option \<Rightarrow> int option \<Rightarrow> trace \<Rightarrow> bool \<times> trace" where
  "send_original_files e chat downloaded_files preview_message_id trigger_message_id tr =
     (if downloaded_files = [] then (False, tr)
      else
        (case send_originals_attempt e chat downloaded_files
                (py_or preview_message_id trigger_message_id) tr of
           (Inr u, tr1) \<Rightarrow> (True, tr1)
         | (Inl err, tr1) \<Rightarrow>
             if truthy_int preview_message_id \<and> truthy_int trigger_message_id
                \<and> preview_message_id \<noteq> trigger_message_id
             then send_original_files e chat downloaded_files None trigger_message_id tr1
             else (False, tr1)))"
  by pat_completeness auto
termination
  by (relation "measure (\<lambda>(e, chat, fs, preview, trigger, tr). if truthy_int preview then 1 else 0)")
     (auto simp: truthy_int_def)

declare send_original_files.simps [simp del]

subsection \<open>\<open>_send_imagine_result\<close>\<close>

text \<open>\<open>initial_message.message_id\<close>, which raises \<open>AttributeError\<close> on \<open>None\<close>.\<close>

definition attribute_error :: string where
  "attribute_error = [CHR 0x27] @ ''NoneType'' @ [CHR 0x27] @ '' object has no attribute ''
     @ [CHR 0x27] @ ''message_id'' @ [CHR 0x27]"

definition message_id_of :: "message option \<Rightarrow> int action" where
  "message_id_of m = (case m of None \<Rightarrow> io_raise attribute_error | Some msg \<Rightarrow> io_return (message_id msg))"

text \<open>The part of the loop body before the originals: the preview send at one parse mode,
  returning the preview message id as it stands afterwards.\<close>

definition send_preview ::
  "env \<Rightarrow> int \<Rightarrow> path list \<Rightarrow> string \<Rightarrow> int option \<Rightarrow> parse_mode option \<Rightarrow> message option
     \<Rightarrow> int option \<Rightarrow> int option action" where
  "send_preview e chat downloaded_files caption reply_to pm initial_message preview_message_id =
     (case downloaded_files of
        [file_path] \<Rightarrow>
          io_bind (perform (read_bytes e) (ReadBytes file_path)) (\<lambda>photo.
          io_bind (message_id_of initial_message) (\<lambda>delete_message_id.
          io_bind (send_single_photo_with_caption e chat caption reply_to (str_parse_mode pm)
                     delete_message_id photo) (\<lambda>sent_message.
          io_return (case sent_message of None \<Rightarrow> preview_message_id | Some i \<Rightarrow> Some i))))
      | _ \<Rightarrow>
          io_bind (message_id_of initial_message) (\<lambda>delete_message_id.
          io_bind (send_photo_group_with_caption e chat caption reply_to (str_parse_mode pm)
                     delete_message_id downloaded_files) (\<lambda>sent_messages.
          io_return (case sent_messages of [] \<Rightarrow> preview_message_id | i # _ \<Rightarrow> Some i))))"

text \<open>The loop over the parse modes.\<close>

fun try_parse_modes ::
  "env \<Rightarrow> int \<Rightarrow> path list \<Rightarrow> string \<Rightarrow> string \<Rightarrow> int option \<Rightarrow> message option \<Rightarrow> message option
     \<Rightarrow> parse_mode option list \<Rightarrow> int option \<Rightarrow> trace \<Rightarrow> bool \<times> trace" where
  "try_parse_modes e chat files caption_html caption_markdown reply_to initial_message
      trigger_message [] preview_message_id tr = (False, tr)"
| "try_parse_modes e chat files caption_html caption_markdown reply_to initial_message
      trigger_message (pm # pms) preview_message_id tr =
     (let caption = (if pm = Some HTML then caption_html else caption_markdown);
          trigger_message_id = map_option message_id trigger_message
      in case send_preview e chat files caption reply_to pm initial_message preview_message_id tr of
           (Inr preview, tr1) \<Rightarrow>
             (case send_original_files e chat files preview trigger_message_id tr1 of
                (sent, tr2) \<Rightarrow> (True, tr2))
         | (Inl err, tr1) \<Rightarrow>
             if \<not> contains caption_too_long err
             then try_parse_modes e chat files caption_html caption_markdown reply_to
                    initial_message trigger_message pms preview_message_id tr1
             else
               (case send_original_files e chat files preview_message_id trigger_message_id tr1 of
                  (sent, tr2) \<Rightarrow> (True, tr2)))"

text \<open>The captions \<open>(caption_markdown, caption_html)\<close>: the final answer when there is
  one, else the entries of \<open>params\<close>.\<close>

definition captions :: "string option \<Rightarrow> (string \<rightharpoonup> string) \<Rightarrow> string \<times> string" where
  "captions final_answer params =
     (case final_answer of
        Some (c # cs) \<Rightarrow> (c # cs, c # cs)
      | _ \<Rightarrow>
          (let caption_markdown = (case params ''caption_markdown'' of None \<Rightarrow> [] | Some v \<Rightarrow> v)
           in (caption_markdown,
               (case params ''caption_html'' of None \<Rightarrow> caption_markdown | Some v \<Rightarrow> v))))"

definition parse_modes :: "parse_mode option list" where
  "parse_modes = [Some HTML, Some MARKDOWN_V2, None]"

definition send_imagine_result ::
  "env \<Rightarrow> int \<Rightarrow> string list \<Rightarrow> (string \<rightharpoonup> string) \<Rightarrow> int option \<Rightarrow> message option
     \<Rightarrow> string option \<Rightarrow> message option \<Rightarrow> trace \<Rightarrow> bool \<times> trace" where
  "send_imagine_result e chat image_urls params reply_to initial_message final_answer
      trigger_message tr =
     (if image_urls = [] then (False, tr)
      else
        (case download_all e (take 10 image_urls) tr of
           (downloaded_files, tr1) \<Rightarrow>
             if downloaded_files = [] then (False, tr1)
             else
               (case captions final_answer params of
                  (caption_markdown, caption_html) \<Rightarrow>
                    try_parse_modes e chat downloaded_files caption_html caption_markdown reply_to
                      initial_message trigger_message parse_modes None tr1)))"

section \<open>imagine\_command.py: the aggregator and the handler\<close>

definition default_prompt :: string where
  "default_prompt = [CHR 0xE8, CHR 0xAF, CHR 0xB7, CHR 0xE5, CHR 0x8F, CHR 0x82, CHR 0xE8, CHR 0x80,
     CHR 0x83, CHR 0xE9, CHR 0x99, CHR 0x84, CHR 0xE4, CHR 0xBB, CHR 0xB6, CHR 0xE4, CHR 0xBF, CHR 0xA1,
     CHR 0xE6, CHR 0x81, CHR 0xAF]"

definition help_text :: string where
  "help_text = [CHR 0xE8, CHR 0xAF, CHR 0xB7, CHR 0xE6, CHR 0x8F, CHR 0x90, CHR 0xE4, CHR 0xBE, CHR 0x9B,
     CHR 0xE5, CHR 0x9B, CHR 0xBE, CHR 0xE7, CHR 0x89, CHR 0x87, CHR 0xE7, CHR 0x94, CHR 0x9F, CHR 0xE6,
     CHR 0x88, CHR 0x90, CHR 0xE6, CHR 0x8F, CHR 0x90, CHR 0xE7, CHR 0xA4, CHR 0xBA, CHR 0xE8, CHR 0xAF,
     CHR 0x8D, CHR 0xE6, CHR 0x88, CHR 0x96, CHR 0xE4, CHR 0xB8, CHR 0x8A, CHR 0xE4, CHR 0xBC, CHR 0xA0,
     CHR 0xE5, CHR 0x8F, CHR 0x82, CHR 0xE8, CHR 0x80, CHR 0x83, CHR 0xE5, CHR 0x9B, CHR 0xBE, CHR 0xE7,
     CHR 0x89, CHR 0x87, CHR 0x0A, CHR 0x0A, CHR 0xE4, CHR 0xBD, CHR 0xBF, CHR 0xE7, CHR 0x94, CHR 0xA8,
     CHR 0xE6, CHR 0x96, CHR 0xB9, CHR 0xE6, CHR 0xB3, CHR 0x95] @ '':'' @ [CHR 0x0A, CHR 0xE2, CHR 0x80,
     CHR 0xA2] @ '' <code>/imagine '' @ [CHR 0xE4, CHR 0xBD, CHR 0xA0, CHR 0xE6, CHR 0x83, CHR 0xB3,
     CHR 0xE7, CHR 0x94, CHR 0x9F, CHR 0xE6, CHR 0x88, CHR 0x90, CHR 0xE7, CHR 0x9A, CHR 0x84, CHR 0xE5,
     CHR 0x9B, CHR 0xBE, CHR 0xE7, CHR 0x89, CHR 0x87, CHR 0xE6, CHR 0x8F, CHR 0x8F, CHR 0xE8, CHR 0xBF,
     CHR 0xB0] @ ''</code>'' @ [CHR 0x0A, CHR 0xE2, CHR 0x80, CHR 0xA2] @ '' <code>/imagine</code> + ''
     @ [CHR 0xE5, CHR 0x8F, CHR 0x91, CHR 0xE9, CHR 0x80, CHR 0x81, CHR 0xE5, CHR 0x8F, CHR 0x82, CHR 0xE8,
     CHR 0x80, CHR 0x83, CHR 0xE5, CHR 0x9B, CHR 0xBE, CHR 0xE7, CHR 0x89, CHR 0x87, CHR 0x0A, CHR 0xE2,
     CHR 0x80, CHR 0xA2] @ '' <code>/imagine '' @ [CHR 0xE6, CHR 0x8F, CHR 0x8F, CHR 0xE8, CHR 0xBF,
     CHR 0xB0, CHR 0xE6, CHR 0x96, CHR 0x87, CHR 0xE5, CHR 0xAD, CHR 0x97] @ ''</code> + '' @ [CHR 0xE5,
     CHR 0x8F, CHR 0x91, CHR 0xE9, CHR 0x80, CHR 0x81, CHR 0xE5, CHR 0x8F, CHR 0x82, CHR 0xE8, CHR 0x80,
     CHR 0x83, CHR 0xE5, CHR 0x9B, CHR 0xBE, CHR 0xE7, CHR 0x89, CHR 0x87, CHR 0x0A]"

definition error_text :: string where
  "error_text = [CHR 0xE2, CHR 0x9D, CHR 0x8C] @ '' '' @ [CHR 0xE5, CHR 0x9B, CHR 0xBE, CHR 0xE7, CHR 0x89,
     CHR 0x87, CHR 0xE7, CHR 0x94, CHR 0x9F, CHR 0xE6, CHR 0x88, CHR 0x90, CHR 0xE8, CHR 0xBF, CHR 0x87,
     CHR 0xE7, CHR 0xA8, CHR 0x8B, CHR 0xE4, CHR 0xB8, CHR 0xAD, CHR 0xE5, CHR 0x8F, CHR 0x91, CHR 0xE7,
     CHR 0x94, CHR 0x9F, CHR 0xE9, CHR 0x94, CHR 0x99, CHR 0xE8, CHR 0xAF, CHR 0xAF, CHR 0xEF, CHR 0xBC,
     CHR 0x8C, CHR 0xE8, CHR 0xAF, CHR 0xB7, CHR 0xE7, CHR 0xA8, CHR 0x8D, CHR 0xE5, CHR 0x90, CHR 0x8E,
     CHR 0xE5, CHR 0x86, CHR 0x8D, CHR 0xE8, CHR 0xAF, CHR 0x95]"

definition match_context :: "Update \<Rightarrow> message option \<times> int option" where
  "match_context update =
     (case (case upd_message update of
              Some m \<Rightarrow> (Some m, Some (chat_id m))
            | None \<Rightarrow>
                (case callback_query update of
                   Some cq \<Rightarrow> (cq_message cq, map_option chat_id (cq_message cq))
                 | None \<Rightarrow> (None, None)))
      of (message, chat) \<Rightarrow>
        if message = None \<or> chat = None then (effective_message update, effective_chat update)
        else (message, chat))"

definition reply_emoji_reaction :: "env \<Rightarrow> int \<Rightarrow> message \<Rightarrow> trace \<Rightarrow> trace" where
  "reply_emoji_reaction e chat message tr =
     snd (perform (bot_set_message_reaction e) (SetMessageReaction chat (message_id message)) tr)"

definition reply_help :: "env \<Rightarrow> int \<Rightarrow> message \<Rightarrow> string \<Rightarrow> bool \<Rightarrow> trace \<Rightarrow> bool \<times> trace" where
  "reply_help e chat message prompt has_media tr =
     (if prompt \<noteq> [] \<or> has_media then (False, tr)
      else (True, snd (perform (bot_send_message e)
                         (SendMessage chat help_text (Some ''HTML'') (Some (message_id message))) tr)))"

subsection \<open>\<open>_collect_media_group_files\<close>\<close>

definition dict_get :: "media_dict \<Rightarrow> string \<Rightarrow> path list" where
  "dict_get d k = (case map_of d k of None \<Rightarrow> [] | Some paths \<Rightarrow> paths)"

definition dict_has_media :: "media_dict \<Rightarrow> bool" where
  "dict_has_media d = list_ex (\<lambda>(media_type, paths). paths \<noteq> []) d"

text \<open>The debounce interval, \<open>asyncio.sleep(0.8)\<close>, in milliseconds.\<close>

definition debounce_ms :: nat where
  "debounce_ms = 800"

definition collect_media_group_files ::
  "env \<Rightarrow> message \<Rightarrow> trace \<Rightarrow> (media_dict option \<times> bool \<times> path list) \<times> trace" where
  "collect_media_group_files e message tr =
     (let tr1 = tr @ [CacheAdd message];
          tr2 =
            (if truthy_str (media_group_id message)
             then
               (case perform (get_media_group_messages e) (CacheGet message) tr1 of
                  (cached_messages, tr_a) \<Rightarrow>
                    if length cached_messages \<le> 1
                    then
                      (case perform (get_media_group_messages e) (CacheGet message)
                              (tr_a @ [Sleep debounce_ms]) of
                         (cached_messages2, tr_b) \<Rightarrow> tr_b)
                    else tr_a)
             else tr1)
      in case perform (download_media_group_files e) (DownloadGroup message) tr2 of
           (media_files, tr3) \<Rightarrow>
             (case media_files of
                Some (kv # kvs) \<Rightarrow>
                  ((media_files, dict_has_media (kv # kvs), dict_get (kv # kvs) ''photos''), tr3)
              | _ \<Rightarrow> ((media_files, False, []), tr3)))"

subsection \<open>\<open>imagine_command\<close>\<close>

text \<open>
  One round of the merge loop: \<open>if paths:\<close>, then the key is created with an empty list
  when missing and the list is extended.  A dictionary is an association list with
  distinct keys in insertion order; \<open>AList.update\<close> replaces the value of a key in place
  and appends a new key at the end, as assignment to a Python dictionary does.
\<close>

definition extend_kind :: "string \<times> path list \<Rightarrow> media_dict \<Rightarrow> media_dict" where
  "extend_kind item media_files =
     (case item of
        (media_type, paths) \<Rightarrow>
          if paths \<noteq> []
          then
            (let created = (if map_of media_files media_type = None
                            then AList.update media_type [] media_files else media_files)
             in AList.update media_type (dict_get created media_type @ paths) created)
          else media_files)"

text \<open>
  The merge of the reply's media into the command's, from the results of the two
  collections.  The lists of the dictionary are extended in place, and \<open>photo_paths\<close> as
  \<open>_collect_media_group_files\<close> returned it is the very list stored under \<open>photos\<close> when the
  dictionary is non-empty and has that key (\<open>media_files.get("photos", [])\<close>): after the
  loop it reads as the extended list, which is written out here.
\<close>

definition merge_reply_media ::
  "media_dict option \<times> bool \<times> path list \<Rightarrow> media_dict option \<times> bool
     \<Rightarrow> media_dict option \<times> bool \<times> path list" where
  "merge_reply_media own reply =
     (case own of (media_files, has_media, photo_paths) \<Rightarrow>
      case reply of (reply_media_files, reply_has_media) \<Rightarrow>
        (case reply_media_files of
           Some (kv # kvs) \<Rightarrow>
             if reply_has_media
             then
               (case
                  (case media_files of
                     Some (m # ms) \<Rightarrow>
                       (let merged = fold extend_kind (kv # kvs) (m # ms)
                        in (Some merged, has_media \<or> dict_has_media (kv # kvs),
                            if map_of (m # ms) ''photos'' = None then photo_paths
                            else dict_get merged ''photos''))
                   | _ \<Rightarrow> (reply_media_files, True, photo_paths))
                of (media_files2, has_media2, photo_paths2) \<Rightarrow>
                  (media_files2, has_media2,
                   if dict_get (kv # kvs) ''photos'' \<noteq> []
                   then photo_paths2 @ dict_get (kv # kvs) ''photos'' else photo_paths2))
             else own
         | _ \<Rightarrow> own))"

text \<open>Lines 173 to 200 of the handler: the command's own media, then the replied-to
  message's, merged.\<close>

definition gather_media ::
  "env \<Rightarrow> message \<Rightarrow> trace \<Rightarrow> (media_dict option \<times> bool \<times> path list) \<times> trace" where
  "gather_media e message tr =
     (case collect_media_group_files e message tr of
        (own, tr1) \<Rightarrow>
          (case reply_to_message message of
             None \<Rightarrow> (own, tr1)
           | Some replied \<Rightarrow>
               (case collect_media_group_files e replied tr1 of
                  ((reply_media_files, reply_has_media, reply_photo_paths), tr2) \<Rightarrow>
                    (merge_reply_media own (reply_media_files, reply_has_media), tr2))))"

text \<open>\<open>" ".join(context.args) if context.args else ""\<close>.\<close>

definition command_prompt :: "Context \<Rightarrow> string" where
  "command_prompt context = (case args context of Some (a # as) \<Rightarrow> join_space (a # as) | _ \<Rightarrow> [])"

text \<open>The handler.  The decorator \<open>non_blocking_handler\<close> is outside the two source files
  and not modelled.  The result is \<open>Inl\<close> when an exception leaves the handler.\<close>

definition imagine_command :: "env \<Rightarrow> Update \<Rightarrow> Context \<Rightarrow> unit action" where
  "imagine_command e update context tr =
     (if inline_query update then (Inr (), tr)
      else if should_ignore_command_in_group e update context then (Inr (), tr)
      else
        (let prompt = command_prompt context
         in case match_context update of
              (Some message, Some chat) \<Rightarrow>
                (case gather_media e message tr of
                   ((media_files, has_media, photo_paths), tr1) \<Rightarrow>
                     (case reply_help e chat message prompt has_media tr1 of
                        (True, tr2) \<Rightarrow> (Inr (), tr2)
                      | (False, tr2) \<Rightarrow>
                          (let prompt2 = (if prompt = [] \<and> has_media then default_prompt else prompt);
                               tr3 = reply_emoji_reaction e chat message tr2;
                               from_user_fmt =
                                 (case from_user message of
                                    Some uid \<Rightarrow> str_int uid | None \<Rightarrow> ''unknown'');
                               username = rstrip_at (bot_username context)
                           in io_catch
                                (io_bind (perform (invoke_model_streaming e)
                                            (InvokeModelStreaming username prompt2 from_user_fmt
                                               photo_paths media_files IMAGINE)) (\<lambda>_.
                                 perform (send_streaming_response e) SendStreamingResponse))
                                (\<lambda>err. perform (bot_send_message e)
                                          (SendMessage chat error_text (Some ''HTML'')
                                             (Some (message_id message))))
                                tr3)))
            | _ \<Rightarrow> (Inr (), tr)))"

section \<open>Reading traces\<close>

text \<open>The calls on the chat transport.\<close>

fun is_bot_call :: "call \<Rightarrow> bool" where
  "is_bot_call (SendMessage chat text pm reply_to) = True"
| "is_bot_call (SetMessageReaction chat mid) = True"
| "is_bot_call (SendPhoto chat photo caption reply_to pm) = True"
| "is_bot_call (SendMediaGroup chat media reply_to) = True"
| "is_bot_call (DeleteMessage chat mid) = True"
| "is_bot_call (SendDocument chat doc filename caption reply_to) = True"
| "is_bot_call c = False"

text \<open>The calls on the generation collaborator.\<close>

fun is_generation_call :: "call \<Rightarrow> bool" where
  "is_generation_call (InvokeModelStreaming username prompt sender photos media fc) = True"
| "is_generation_call SendStreamingResponse = True"
| "is_generation_call c = False"

fun is_invoke_call :: "call \<Rightarrow> bool" where
  "is_invoke_call (InvokeModelStreaming username prompt sender photos media fc) = True"
| "is_invoke_call c = False"

text \<open>The calls of the aggregator: the cache, the debounce wait and the download of a
  group's media.\<close>

fun is_aggregator_call :: "call \<Rightarrow> bool" where
  "is_aggregator_call (CacheAdd m) = True"
| "is_aggregator_call (CacheGet m) = True"
| "is_aggregator_call (Sleep ms) = True"
| "is_aggregator_call (DownloadGroup m) = True"
| "is_aggregator_call c = False"

text \<open>The calls of an asset download, and those of the delivery (file reads and sends).\<close>

fun is_download_call :: "call \<Rightarrow> bool" where
  "is_download_call (Mkdir p) = True"
| "is_download_call Uuid4 = True"
| "is_download_call (HttpGet url) = True"
| "is_download_call (WriteBytes p content) = True"
| "is_download_call c = False"

fun is_delivery_call :: "call \<Rightarrow> bool" where
  "is_delivery_call (ReadBytes p) = True"
| "is_delivery_call (SendPhoto chat photo caption reply_to pm) = True"
| "is_delivery_call (SendMediaGroup chat media reply_to) = True"
| "is_delivery_call (DeleteMessage chat mid) = True"
| "is_delivery_call (SendDocument chat doc filename caption reply_to) = True"
| "is_delivery_call c = False"

text \<open>An action keeps the events selected by \<open>P\<close>: it adds none of them to the trace.\<close>

definition keeps :: "(call \<Rightarrow> bool) \<Rightarrow> (trace \<Rightarrow> 'a \<times> trace) \<Rightarrow> bool" where
  "keeps P m = (\<forall>tr. filter P (snd (m tr)) = filter P tr)"

text \<open>The URLs fetched, and the download attempts begun (each begins with \<open>Mkdir\<close>).\<close>

fun fetched_url :: "call \<Rightarrow> string option" where
  "fetched_url (HttpGet url) = Some url"
| "fetched_url c = None"

definition fetched_urls :: "trace \<Rightarrow> string list" where
  "fetched_urls tr = List.map_filter fetched_url tr"

fun is_mkdir :: "call \<Rightarrow> bool" where
  "is_mkdir (Mkdir p) = True"
| "is_mkdir c = False"

text \<open>The reply targets of the sends of documents and of media groups, in call order.\<close>

fun send_reply_target :: "call \<Rightarrow> int option option" where
  "send_reply_target (SendDocument chat doc filename caption reply_to) = Some reply_to"
| "send_reply_target (SendMediaGroup chat media reply_to) = Some reply_to"
| "send_reply_target c = None"

definition reply_targets :: "trace \<Rightarrow> int option list" where
  "reply_targets tr = List.map_filter send_reply_target tr"

text \<open>
  The download loop in the words of the specification: every URL of the batch is
  attempted in order, each attempt in the state the one before left; \<open>attempts\<close> lists
  each URL with what its download returned, \<open>after_attempts\<close> is the trace after the
  last.  The files of the batch are the files of the successful attempts, in that order.
\<close>

fun attempts :: "env \<Rightarrow> string list \<Rightarrow> trace \<Rightarrow> (string \<times> path option) list" where
  "attempts e [] tr = []"
| "attempts e (url # urls) tr =
     (url, fst (download_image_from_url e url tr))
     # attempts e urls (snd (download_image_from_url e url tr))"

definition after_attempts :: "env \<Rightarrow> string list \<Rightarrow> trace \<Rightarrow> trace" where
  "after_attempts e urls tr = fold (\<lambda>url t. snd (download_image_from_url e url t)) urls tr"

text \<open>File \<open>f\<close> is what a download of \<open>url\<close> returns, in some state of the world.\<close>

definition downloaded_from :: "env \<Rightarrow> path \<Rightarrow> string \<Rightarrow> bool" where
  "downloaded_from e f url = (\<exists>tr. fst (download_image_from_url e url tr) = Some f)"

section \<open>Example worlds\<close>

text \<open>A world in which every call succeeds: no cached fragments, no media, photos sent as
  message 500, media groups as messages 500 and 501.  The URLs of the examples have plain
  ASCII hosts without brackets, for which the two host tests are not asked; here they
  refuse every host.\<close>

definition calm_env :: env where
  "calm_env = \<lparr>
     DATA_DIR = ''/data'',
     should_ignore_command_in_group = (\<lambda>update context. False),
     get_media_group_messages = (\<lambda>tr. []),
     download_media_group_files = (\<lambda>tr. None),
     invoke_model_streaming = (\<lambda>tr. Inr ()),
     send_streaming_response = (\<lambda>tr. Inr ()),
     bot_send_message = (\<lambda>tr. Inr ()),
     bot_set_message_reaction = (\<lambda>tr. Inr ()),
     bot_send_photo = (\<lambda>tr. Inr (Some 500)),
     bot_send_media_group = (\<lambda>tr. Inr [500, 501]),
     bot_delete_message = (\<lambda>tr. Inr ()),
     bot_send_document = (\<lambda>tr. Inr ()),
     mkdir = (\<lambda>tr. Inr ()),
     uuid4_hex = (\<lambda>tr. ''0123456789abcdef0123456789abcdef''),
     http_get = (\<lambda>tr. Inr ''image-bytes''),
     write_bytes = (\<lambda>tr. Inr ()),
     read_bytes = (\<lambda>tr. Inr ''image-bytes''),
     check_bracketed_host = (\<lambda>host. False),
     checknetloc_nfkc = (\<lambda>netloc. False) \<rparr>"

text \<open>A world in which every HTTP request fails.\<close>

definition offline_env :: env where
  "offline_env = calm_env \<lparr> http_get := (\<lambda>tr. Inl ''connection timed out'') \<rparr>"

text \<open>A world in which the request for \<open>b.png\<close> fails and every other call succeeds, and a
  batch of twelve URLs.\<close>

definition flaky_env :: env where
  "flaky_env = calm_env \<lparr> http_get :=
     (\<lambda>tr. if last tr = HttpGet ''https://cdn.example/b.png''
           then Inl ''503 Service Unavailable'' else Inr ''image-bytes'') \<rparr>"

definition twelve_urls :: "string list" where
  "twelve_urls = map (\<lambda>n. ''https://cdn.example/'' @ n @ ''.png'')
     [''a'', ''b'', ''c'', ''d'', ''e'', ''f'', ''g'', ''h'', ''i'', ''j'', ''k'', ''l'']"

text \<open>A media group \<open>g1\<close> of three fragments, of which only the command's own one is cached
  until the debounce wait has passed.\<close>

definition fragment1 :: message where
  "fragment1 = Message 11 7 (Some ''g1'') (Some 42) None"

definition fragment2 :: message where
  "fragment2 = Message 12 7 (Some ''g1'') (Some 42) None"

definition fragment3 :: message where
  "fragment3 = Message 13 7 (Some ''g1'') (Some 42) None"

definition arriving_env :: env where
  "arriving_env = calm_env \<lparr> get_media_group_messages :=
     (\<lambda>tr. if Sleep debounce_ms \<in> set tr then [fragment1, fragment2, fragment3] else [fragment1]) \<rparr>"

text \<open>A world in which a document cannot be sent in reply to message 500 (the preview),
  and one in which no document can be sent at all.\<close>

definition picky_env :: env where
  "picky_env = calm_env \<lparr> bot_send_document :=
     (\<lambda>tr. if send_reply_target (last tr) = Some (Some 500)
           then Inl ''Bad Request: message to be replied not found'' else Inr ()) \<rparr>"

definition no_documents_env :: env where
  "no_documents_env = calm_env \<lparr> bot_send_document := (\<lambda>tr. Inl ''Bad Request: file is too big'') \<rparr>"

text \<open>A world in which the placeholder message cannot be deleted, and one in which, on top
  of that, a photo with a caption is refused as too long.\<close>

definition stuck_placeholder_env :: env where
  "stuck_placeholder_env = calm_env \<lparr> bot_delete_message :=
     (\<lambda>tr. Inl ''Bad Request: message to delete not found'') \<rparr>"

fun has_caption :: "call \<Rightarrow> bool" where
  "has_caption (SendPhoto chat photo (Some caption) reply_to pm) = True"
| "has_caption c = False"

definition long_caption_env :: env where
  "long_caption_env = stuck_placeholder_env \<lparr> bot_send_photo :=
     (\<lambda>tr. if has_caption (last tr) then Inl ''Message caption is too long'' else Inr (Some 500)) \<rparr>"

text \<open>A private chat: a command message without arguments, without a group and without a
  reply; and a world in which that message carries one photo.\<close>

definition command_message :: message where
  "command_message = Message 11 7 None (Some 42) None"

definition command_update :: Update where
  "command_update = \<lparr> inline_query = False, upd_message = Some command_message,
     callback_query = None, effective_message = Some command_message, effective_chat = Some 7 \<rparr>"

definition bare_context :: Context where
  "bare_context = \<lparr> args = None, bot_username = ''imagine_bot'' \<rparr>"

definition photo_env :: env where
  "photo_env = calm_env \<lparr> download_media_group_files :=
     (\<lambda>tr. Some [(''photos'', [''/data/downloads/p1.jpg''])]) \<rparr>"

text \<open>The media of a command message with one photo, and of a replied-to message with one
  photo and a kind that has no file.\<close>

definition own_photo :: media_dict where
  "own_photo = [(''photos'', [''/data/downloads/p1.jpg''])]"

definition reply_photo_and_empty_kind :: media_dict where
  "reply_photo_and_empty_kind = [(''photos'', [''/data/downloads/r1.jpg'']), (''documents'', [])]"

section \<open>Unfolding the definitions on examples\<close>

lemmas url_defs =
  download_image_from_url_def choose_filename_def url_filename_def urlparse_path_def
  split_scheme_def is_alpha_def scheme_char_def c0_or_space_def unsafe_url_byte_def
  uses_params_def lower_def lower_char_def splitparams_def is_image_name_def
  endswith_def path_join_def is_ascii_def bracketed_host_def

lemmas eval_defs =
  calm_env_def io_bind_def io_catch_def io_return_def io_raise_def perform_def
  send_originals_attempt_def send_preview_def send_single_photo_with_caption_def
  send_photo_group_with_caption_def message_id_of_def str_parse_mode_def caption_too_long_def
  photo_group_def document_group_def path_name_def truthy_int_def py_or_def

section \<open>Actions and the events they add\<close>

lemma keepsI: "(\<And>tr. filter P (snd (m tr)) = filter P tr) \<Longrightarrow> keeps P m"
  by (simp add: keeps_def)

lemma keepsD: "keeps P m \<Longrightarrow> filter P (snd (m tr)) = filter P tr"
  by (simp add: keeps_def)

lemma keepsD2: "keeps P m \<Longrightarrow> m tr = (r, tr') \<Longrightarrow> filter P tr' = filter P tr"
  by (auto simp: keeps_def dest: spec [of _ tr])

lemma keeps_perform: "\<not> P c \<Longrightarrow> keeps P (perform a c)"
  by (simp add: keeps_def perform_def)

lemma keeps_return: "keeps P (io_return x)"
  by (simp add: keeps_def io_return_def)

lemma keeps_raise: "keeps P (io_raise err)"
  by (simp add: keeps_def io_raise_def)

lemma keeps_bind: "keeps P m \<Longrightarrow> (\<And>x. keeps P (f x)) \<Longrightarrow> keeps P (io_bind m f)"
  by (auto simp: keeps_def io_bind_def split: prod.splits sum.splits)
     (metis snd_conv)+

lemma keeps_catch: "keeps P m \<Longrightarrow> (\<And>err. keeps P (h err)) \<Longrightarrow> keeps P (io_catch m h)"
  by (auto simp: keeps_def io_catch_def split: prod.splits sum.splits)
     (metis snd_conv)+

lemma keeps_if: "keeps P m \<Longrightarrow> keeps P n \<Longrightarrow> keeps P (if b then m else n)"
  by simp

lemmas keeps_intros = keeps_bind keeps_catch keeps_return keeps_raise keeps_perform keeps_if

lemma keeps_read_all:
  assumes "\<And>p. \<not> P (ReadBytes p)"
  shows "keeps P (read_all e files)"
proof (rule keepsI)
  fix tr
  show "filter P (snd (read_all e files tr)) = filter P tr"
  proof (induction files arbitrary: tr)
    case Nil
    show ?case by simp
  next
    case (Cons f fs)
    have np: "\<not> P (ReadBytes f)" by (rule assms)
    show ?case using Cons.IH [of "tr @ [ReadBytes f]"] np
      by (auto simp: perform_def split: prod.splits sum.splits)
  qed
qed

lemma keeps_send_single:
  assumes "\<And>c. is_delivery_call c \<Longrightarrow> \<not> P c"
  shows "keeps P (send_single_photo_with_caption e chat caption reply_to pm del photo)"
  unfolding send_single_photo_with_caption_def
  by (intro keeps_intros) (simp_all add: assms)

lemma keeps_send_group:
  assumes "\<And>c. is_delivery_call c \<Longrightarrow> \<not> P c"
  shows "keeps P (send_photo_group_with_caption e chat caption reply_to pm del files)"
  unfolding send_photo_group_with_caption_def
  by (intro keeps_intros keeps_read_all) (simp_all add: assms)

lemma keeps_message_id_of: "keeps P (message_id_of m)"
  by (cases m) (simp_all add: message_id_of_def keeps_intros)

lemma keeps_send_preview:
  assumes "\<And>c. is_delivery_call c \<Longrightarrow> \<not> P c"
  shows "keeps P (send_preview e chat files caption reply_to pm initial preview)"
  unfolding send_preview_def
  by (auto split: list.splits intro!: keeps_intros keeps_send_single keeps_send_group keeps_message_id_of simp: assms)

lemma keeps_originals_attempt:
  assumes "\<And>c. is_delivery_call c \<Longrightarrow> \<not> P c"
  shows "keeps P (send_originals_attempt e chat files reply_to)"
  unfolding send_originals_attempt_def
  by (auto split: list.splits intro!: keeps_intros keeps_read_all simp: assms)

lemma keeps_original_files:
  assumes "\<And>c. is_delivery_call c \<Longrightarrow> \<not> P c"
  shows "keeps P (send_original_files e chat files preview trigger)"
proof (rule keepsI)
  fix tr
  show "filter P (snd (send_original_files e chat files preview trigger tr)) = filter P tr"
  proof (induction e chat files preview trigger tr rule: send_original_files.induct)
    case (1 e chat files preview trigger tr)
    show ?case
    proof (cases "send_originals_attempt e chat files (py_or preview trigger) tr")
      case (Pair r tr1)
      have k: "filter P tr1 = filter P tr"
        using keepsD2 [OF keeps_originals_attempt [OF assms] Pair] .
      show ?thesis
      proof (cases r)
        case (Inl err)
        show ?thesis
          using Pair Inl k "1.IH" [OF _ Pair [symmetric] Inl]
          by (subst send_original_files.simps) auto
      next
        case (Inr u)
        show ?thesis
          using Pair Inr k
          by (subst send_original_files.simps) auto
      qed
    qed
  qed
qed

lemma keeps_try_parse_modes:
  assumes "\<And>c. is_delivery_call c \<Longrightarrow> \<not> P c"
  shows "keeps P (try_parse_modes e chat files ch cm reply_to initial trigger pms preview)"
proof (rule keepsI)
  fix tr
  show "filter P (snd (try_parse_modes e chat files ch cm reply_to initial trigger pms preview tr))
        = filter P tr"
  proof (induction pms arbitrary: tr)
    case Nil
    show ?case by simp
  next
    case (Cons pm pms)
    let ?cap = "if pm = Some HTML then ch else cm"
    show ?case
    proof (cases "send_preview e chat files ?cap reply_to pm initial preview tr")
      case (Pair r tr1)
      have k: "filter P tr1 = filter P tr"
        using keepsD2 [OF keeps_send_preview [OF assms] Pair] .
      have o: "\<And>pv. filter P (snd (send_original_files e chat files pv (map_option message_id trigger) tr1))
                 = filter P tr1"
        using keepsD [OF keeps_original_files [OF assms]] .
      show ?thesis
        using Pair k o Cons.IH [of tr1]
        by (cases r) (simp_all add: Let_def split_beta)
    qed
  qed
qed

lemma perform_keeps: "\<not> P c \<Longrightarrow> filter P (snd (perform a c tr)) = filter P tr"
  by (simp add: perform_def)

lemma download_image_keeps:
  assumes "\<And>p. \<not> P (Mkdir p)" "\<not> P Uuid4" "\<And>u. \<not> P (HttpGet u)" "\<And>p b. \<not> P (WriteBytes p b)"
  shows "filter P (snd (download_image_from_url e url tr)) = filter P tr"
  using assms
  by (auto simp: download_image_from_url_def choose_filename_def io_bind_def io_return_def perform_def Let_def
      split: prod.splits sum.splits)

lemma download_all_keeps:
  assumes "\<And>p. \<not> P (Mkdir p)" "\<not> P Uuid4" "\<And>u. \<not> P (HttpGet u)" "\<And>p b. \<not> P (WriteBytes p b)"
  shows "filter P (snd (download_all e urls tr)) = filter P tr"
proof (induction urls arbitrary: tr)
  case Nil
  show ?case by simp
next
  case (Cons url urls)
  have one: "filter P (snd (download_image_from_url e url tr)) = filter P tr"
    using assms by (rule download_image_keeps)
  show ?case
  proof (cases "download_image_from_url e url tr")
    case (Pair r tr1)
    with one have tr1: "filter P tr1 = filter P tr" by simp
    show ?thesis
      using Pair tr1 Cons.IH [of tr1]
      by (cases r) (auto split: prod.splits)
  qed
qed

section \<open>The aggregator's debounce wait\<close>

text \<open>
  Claim C1.  \<open>_collect_media_group_files\<close> first records the message in the cache.  For a
  message with a media-group identifier it then reads the cached fragments of the group:
  when there is at most one it sleeps the debounce interval once and reads the cache
  again, when there are more it goes on at once.  A message without a group identifier
  is neither looked up nor waited for.  In every case the download of the group's media
  comes last.  The theorem gives the whole trace of calls.
\<close>

theorem collect_media_group_files_trace:
  "snd (collect_media_group_files e m tr) =
     tr @ [CacheAdd m]
     @ (if truthy_str (media_group_id m)
        then CacheGet m
             # (if length (get_media_group_messages e (tr @ [CacheAdd m, CacheGet m])) \<le> 1
                then [Sleep debounce_ms, CacheGet m] else [])
        else [])
     @ [DownloadGroup m]"
  by (simp add: collect_media_group_files_def perform_def Let_def
      split: prod.splits option.splits list.splits)

theorem collect_media_group_files_trace_witness:
  "snd (collect_media_group_files arriving_env fragment1 []) =
     [CacheAdd fragment1, CacheGet fragment1, Sleep debounce_ms, CacheGet fragment1,
      DownloadGroup fragment1]
   \<and> get_media_group_messages arriving_env
        [CacheAdd fragment1, CacheGet fragment1, Sleep debounce_ms, CacheGet fragment1]
      = [fragment1, fragment2, fragment3]"
  using collect_media_group_files_trace [of arriving_env fragment1 "[]"]
  by (simp add: arriving_env_def calm_env_def fragment1_def truthy_str_def)

section \<open>The download loop\<close>

lemma fetched_urls_append: "fetched_urls (a @ b) = fetched_urls a @ fetched_urls b"
  by (simp add: fetched_urls_def map_filter_def)

lemma fetched_urls_filter:
  "fetched_urls tr = map (the \<circ> fetched_url) (filter (\<lambda>c. fetched_url c \<noteq> None) tr)"
  by (simp add: fetched_urls_def map_filter_def)

lemma fetched_url_delivery: "is_delivery_call c \<Longrightarrow> \<not> fetched_url c \<noteq> None"
  by (cases c) simp_all

lemma download_image_fetched:
  "\<exists>us. fetched_urls (snd (download_image_from_url e url tr)) = fetched_urls tr @ us
        \<and> (us = [] \<or> us = [url])"
  by (auto simp: download_image_from_url_def choose_filename_def io_bind_def io_return_def
        perform_def Let_def fetched_urls_append fetched_urls_def map_filter_def
      split: prod.splits sum.splits)

lemma download_all_fetched:
  "\<exists>us. fetched_urls (snd (download_all e urls tr)) = fetched_urls tr @ us \<and> subseq us urls"
proof (induction urls arbitrary: tr)
  case Nil
  show ?case by simp
next
  case (Cons url urls)
  obtain r tr1 where d: "download_image_from_url e url tr = (r, tr1)"
    by (cases "download_image_from_url e url tr")
  from download_image_fetched [of e url tr] d
  obtain us1 where u1: "fetched_urls tr1 = fetched_urls tr @ us1" "us1 = [] \<or> us1 = [url]"
    by auto
  from Cons.IH [of tr1]
  obtain us2 where u2: "fetched_urls (snd (download_all e urls tr1)) = fetched_urls tr1 @ us2"
      "subseq us2 urls"
    by auto
  have s: "snd (download_all e (url # urls) tr) = snd (download_all e urls tr1)"
    using d by (cases r) (simp_all add: split_beta)
  have "subseq (us1 @ us2) (url # urls)"
    using u1(2) u2(2) by auto
  then show ?case
    using s u1(1) u2(1) by auto
qed

lemma download_image_attempt:
  "length (filter is_mkdir (snd (download_image_from_url e url tr))) = Suc (length (filter is_mkdir tr))"
  by (auto simp: download_image_from_url_def choose_filename_def io_bind_def io_return_def
        perform_def Let_def split: prod.splits sum.splits)

lemma download_all_attempts:
  "length (filter is_mkdir (snd (download_all e urls tr))) = length (filter is_mkdir tr) + length urls"
proof (induction urls arbitrary: tr)
  case Nil
  show ?case by simp
next
  case (Cons url urls)
  obtain r tr1 where d: "download_image_from_url e url tr = (r, tr1)"
    by (cases "download_image_from_url e url tr")
  have a: "length (filter is_mkdir tr1) = Suc (length (filter is_mkdir tr))"
    using download_image_attempt [of e url tr] d by simp
  have s: "snd (download_all e (url # urls) tr) = snd (download_all e urls tr1)"
    using d by (cases r) (simp_all add: split_beta)
  show ?case using s a Cons.IH [of tr1] by simp
qed

lemma download_all_files:
  "\<exists>ok. subseq ok urls \<and> list_all2 (downloaded_from e) (fst (download_all e urls tr)) ok"
proof (induction urls arbitrary: tr)
  case Nil
  show ?case by simp
next
  case (Cons url urls)
  obtain r tr1 where d: "download_image_from_url e url tr = (r, tr1)"
    by (cases "download_image_from_url e url tr")
  from Cons.IH [of tr1]
  obtain ok where ok: "subseq ok urls" "list_all2 (downloaded_from e) (fst (download_all e urls tr1)) ok"
    by auto
  show ?case
  proof (cases r)
    case None
    then have "fst (download_all e (url # urls) tr) = fst (download_all e urls tr1)"
      using d by simp
    with ok show ?thesis by auto
  next
    case (Some f)
    then have f: "fst (download_all e (url # urls) tr) = f # fst (download_all e urls tr1)"
      using d by (simp add: split_beta)
    have "downloaded_from e f url"
      unfolding downloaded_from_def using d Some by (intro exI [of _ tr]) simp
    with ok f have "subseq (url # ok) (url # urls) \<and>
        list_all2 (downloaded_from e) (fst (download_all e (url # urls) tr)) (url # ok)"
      by simp
    then show ?thesis by blast
  qed
qed

lemma try_parse_modes_fetched:
  "fetched_urls (snd (try_parse_modes e chat files ch cm reply_to initial trigger pms preview tr))
   = fetched_urls tr"
proof -
  have "keeps (\<lambda>c. fetched_url c \<noteq> None)
          (try_parse_modes e chat files ch cm reply_to initial trigger pms preview)"
    by (rule keeps_try_parse_modes) (rule fetched_url_delivery)
  from keepsD [OF this, of tr] show ?thesis
    by (simp only: fetched_urls_filter)
qed

lemma download_image_exact:
  "download_image_from_url e url tr =
     (let d = path_join (DATA_DIR e) ''generated_images'' in
      case mkdir e (tr @ [Mkdir d]) of
        Inl err \<Rightarrow> (None, tr @ [Mkdir d])
      | Inr u \<Rightarrow>
          (case url_filename e url of
             Inl err \<Rightarrow> (None, tr @ [Mkdir d])
           | Inr name \<Rightarrow>
               (let tr2 = (if name \<noteq> [] \<and> is_image_name name then tr @ [Mkdir d]
                           else tr @ [Mkdir d, Uuid4]);
                    chosen = (if name \<noteq> [] \<and> is_image_name name then name
                              else uuid4_hex e (tr @ [Mkdir d, Uuid4]) @ ''.jpeg'')
                in case http_get e (tr2 @ [HttpGet url]) of
                     Inl err \<Rightarrow> (None, tr2 @ [HttpGet url])
                   | Inr content \<Rightarrow>
                       (case write_bytes e (tr2 @ [HttpGet url, WriteBytes (path_join d chosen) content]) of
                          Inl err \<Rightarrow>
                            (None, tr2 @ [HttpGet url, WriteBytes (path_join d chosen) content])
                        | Inr u2 \<Rightarrow>
                            (Some (path_join d chosen),
                             tr2 @ [HttpGet url, WriteBytes (path_join d chosen) content])))))"
  by (simp add: download_image_from_url_def choose_filename_def io_bind_def io_return_def
        perform_def Let_def split: sum.splits)

lemma attempts_urls: "map fst (attempts e urls tr) = urls"
  by (induction urls arbitrary: tr) simp_all

lemma download_all_pinned:
  "download_all e urls tr = (List.map_filter snd (attempts e urls tr), after_attempts e urls tr)"
proof (induction urls arbitrary: tr)
  case Nil
  show ?case by (simp add: after_attempts_def map_filter_def)
next
  case (Cons url urls)
  obtain r tr1 where d: "download_image_from_url e url tr = (r, tr1)"
    by (cases "download_image_from_url e url tr")
  show ?case
    using d Cons.IH [of tr1]
    by (cases r) (simp_all add: after_attempts_def map_filter_def)
qed

lemma send_imagine_result_pinned:
  "send_imagine_result e chat image_urls params reply_to initial_message final_answer
      trigger_message tr =
     (let downloaded_files = List.map_filter snd (attempts e (take 10 image_urls) tr);
          tr1 = after_attempts e (take 10 image_urls) tr
      in if downloaded_files = [] then (False, tr1)
         else
           (case captions final_answer params of
              (caption_markdown, caption_html) \<Rightarrow>
                try_parse_modes e chat downloaded_files caption_html caption_markdown reply_to
                  initial_message trigger_message parse_modes None tr1))"
proof (cases "image_urls = []")
  case True
  then show ?thesis
    by (simp add: send_imagine_result_def after_attempts_def map_filter_def)
next
  case False
  then show ?thesis
    by (simp add: send_imagine_result_def download_all_pinned Let_def)
qed

lemma send_imagine_result_download_calls:
  "filter is_download_call (snd (send_imagine_result e chat image_urls params reply_to
       initial_message final_answer trigger_message tr))
   = filter is_download_call (after_attempts e (take 10 image_urls) tr)"
proof -
  have k: "\<And>files ch cm t. filter is_download_call
      (snd (try_parse_modes e chat files ch cm reply_to initial_message trigger_message
              parse_modes None t)) = filter is_download_call t"
    by (rule keepsD [OF keeps_try_parse_modes]) (case_tac c, simp_all)
  show ?thesis
    by (simp add: send_imagine_result_pinned Let_def split_beta k)
qed

lemma send_imagine_result_first_ten:
  "send_imagine_result e chat image_urls params reply_to initial_message final_answer
      trigger_message tr
   = send_imagine_result e chat (take 10 image_urls) params reply_to initial_message final_answer
      trigger_message tr"
  by (simp add: send_imagine_result_pinned)

text \<open>
  Claim C2.  Whatever the list of URLs, \<open>_send_imagine_result\<close> works on its first ten
  only and gives the same result as on those ten alone.  The URLs it fetches are a
  subsequence of the first ten, in their order.  The download loop attempts every one of
  the first ten URLs in order, each attempt in the state the one before left, and the
  list of downloaded files is exactly the files of the successful attempts in that
  order: a failed attempt is left out and the loop goes on.  These files and the trace
  after the last attempt are what the delivery works on, and the run has no download
  call besides those of the attempts.  One attempt returns a file exactly when the
  directory, the URL's file name, the request and the write all succeed, with the calls
  given in the last part of the statement.
\<close>

theorem download_cap_and_order:
  "(\<exists>us. fetched_urls (snd (send_imagine_result e chat image_urls params reply_to initial_message
              final_answer trigger_message tr)) = fetched_urls tr @ us
         \<and> subseq us (take 10 image_urls) \<and> length us \<le> 10)
   \<and> (case download_all e (take 10 image_urls) tr of
        (downloaded_files, tr1) \<Rightarrow>
          (\<exists>ok. subseq ok (take 10 image_urls) \<and> list_all2 (downloaded_from e) downloaded_files ok)
          \<and> length (filter is_mkdir tr1) = length (filter is_mkdir tr) + min 10 (length image_urls))
   \<and> download_all e (take 10 image_urls) tr
       = (List.map_filter snd (attempts e (take 10 image_urls) tr),
          after_attempts e (take 10 image_urls) tr)
   \<and> map fst (attempts e (take 10 image_urls) tr) = take 10 image_urls
   \<and> send_imagine_result e chat image_urls params reply_to initial_message final_answer
        trigger_message tr
       = (let downloaded_files = List.map_filter snd (attempts e (take 10 image_urls) tr);
              tr1 = after_attempts e (take 10 image_urls) tr
          in if downloaded_files = [] then (False, tr1)
             else
               (case captions final_answer params of
                  (caption_markdown, caption_html) \<Rightarrow>
                    try_parse_modes e chat downloaded_files caption_html caption_markdown reply_to
                      initial_message trigger_message parse_modes None tr1))
   \<and> filter is_download_call (snd (send_imagine_result e chat image_urls params reply_to
          initial_message final_answer trigger_message tr))
       = filter is_download_call (after_attempts e (take 10 image_urls) tr)
   \<and> send_imagine_result e chat image_urls params reply_to initial_message final_answer
        trigger_message tr
       = send_imagine_result e chat (take 10 image_urls) params reply_to initial_message
           final_answer trigger_message tr
   \<and> download_image_from_url e url t =
       (let d = path_join (DATA_DIR e) ''generated_images'' in
        case mkdir e (t @ [Mkdir d]) of
          Inl err \<Rightarrow> (None, t @ [Mkdir d])
        | Inr u \<Rightarrow>
            (case url_filename e url of
               Inl err \<Rightarrow> (None, t @ [Mkdir d])
             | Inr name \<Rightarrow>
                 (let t2 = (if name \<noteq> [] \<and> is_image_name name then t @ [Mkdir d]
                            else t @ [Mkdir d, Uuid4]);
                      chosen = (if name \<noteq> [] \<and> is_image_name name then name
                                else uuid4_hex e (t @ [Mkdir d, Uuid4]) @ ''.jpeg'')
                  in case http_get e (t2 @ [HttpGet url]) of
                       Inl err \<Rightarrow> (None, t2 @ [HttpGet url])
                     | Inr content \<Rightarrow>
                         (case write_bytes e
                                 (t2 @ [HttpGet url, WriteBytes (path_join d chosen) content]) of
                            Inl err \<Rightarrow>
                              (None, t2 @ [HttpGet url, WriteBytes (path_join d chosen) content])
                          | Inr u2 \<Rightarrow>
                              (Some (path_join d chosen),
                               t2 @ [HttpGet url, WriteBytes (path_join d chosen) content])))))"
proof -
  obtain files tr1 where d: "download_all e (take 10 image_urls) tr = (files, tr1)"
    by (cases "download_all e (take 10 image_urls) tr")
  from download_all_fetched [of e "take 10 image_urls" tr] d
  obtain us where us: "fetched_urls tr1 = fetched_urls tr @ us" "subseq us (take 10 image_urls)"
    by auto
  have len: "length us \<le> 10"
    using list_emb_length [OF us(2)] by simp
  have "fetched_urls (snd (send_imagine_result e chat image_urls params reply_to initial_message
              final_answer trigger_message tr)) = fetched_urls tr @ us"
  proof (cases "image_urls = []")
    case True
    with d us show ?thesis by (simp add: send_imagine_result_def)
  next
    case False
    then show ?thesis
      using d us(1)
      by (simp add: send_imagine_result_def split_beta try_parse_modes_fetched)
  qed
  then have c1: "\<exists>us. fetched_urls (snd (send_imagine_result e chat image_urls params reply_to
              initial_message final_answer trigger_message tr)) = fetched_urls tr @ us
         \<and> subseq us (take 10 image_urls) \<and> length us \<le> 10"
    using us(2) len by blast
  have "\<exists>ok. subseq ok (take 10 image_urls) \<and> list_all2 (downloaded_from e) files ok"
    using download_all_files [of "take 10 image_urls" e tr] d by simp
  moreover have "length (filter is_mkdir tr1) = length (filter is_mkdir tr) + min 10 (length image_urls)"
    using download_all_attempts [of e "take 10 image_urls" tr] d by (simp add: min.commute)
  ultimately have c2: "case download_all e (take 10 image_urls) tr of
        (downloaded_files, tr1) \<Rightarrow>
          (\<exists>ok. subseq ok (take 10 image_urls) \<and> list_all2 (downloaded_from e) downloaded_files ok)
          \<and> length (filter is_mkdir tr1) = length (filter is_mkdir tr) + min 10 (length image_urls)"
    using d by simp
  note c3 = download_all_pinned [of e "take 10 image_urls" tr]
  note c4 = attempts_urls [of e "take 10 image_urls" tr]
  note c5 = send_imagine_result_pinned [of e chat image_urls params reply_to initial_message
      final_answer trigger_message tr]
  note c6 = send_imagine_result_download_calls [of e chat image_urls params reply_to
      initial_message final_answer trigger_message tr]
  note c7 = send_imagine_result_first_ten [of e chat image_urls params reply_to initial_message
      final_answer trigger_message tr]
  note c8 = download_image_exact [of e url t]
  show ?thesis
    by (intro conjI) (rule c1 c2 c3 c4 c5 c6 c7 c8)+
qed

lemma twelve_names:
  "url \<in> set twelve_urls \<Longrightarrow> \<exists>name. url_filename e url = Inr name \<and> name \<noteq> [] \<and> is_image_name name"
  unfolding twelve_urls_def
  by (simp only: list.map set_simps insert_iff empty_iff append.simps)
     (elim disjE; simp add: url_defs path_name_def)

lemma offline_one:
  assumes "url \<in> set twelve_urls"
  shows "download_image_from_url offline_env url t
         = (None, t @ [Mkdir ''/data/generated_images'', HttpGet url])"
proof -
  from twelve_names [OF assms, of offline_env]
  obtain name where n: "url_filename offline_env url = Inr name" "name \<noteq> []" "is_image_name name"
    by blast
  have w: "DATA_DIR offline_env = ''/data''" "\<And>x. mkdir offline_env x = Inr ()"
    "\<And>x. http_get offline_env x = Inl ''connection timed out''"
    by (simp_all add: offline_env_def calm_env_def)
  show ?thesis
    by (simp add: download_image_exact n w path_join_def Let_def)
qed

lemma offline_attempts:
  "set urls \<subseteq> set twelve_urls \<Longrightarrow>
   attempts offline_env urls t = map (\<lambda>url. (url, None)) urls
   \<and> after_attempts offline_env urls t
       = t @ concat (map (\<lambda>url. [Mkdir ''/data/generated_images'', HttpGet url]) urls)"
  by (induction urls arbitrary: t) (simp_all add: after_attempts_def offline_one)

lemma fetched_urls_attempts:
  "fetched_urls (concat (map (\<lambda>url. [Mkdir d, HttpGet url]) urls)) = urls"
  by (induction urls) (simp_all add: fetched_urls_def map_filter_def)

lemma flaky_a:
  "download_image_from_url flaky_env ''https://cdn.example/a.png'' []
   = (Some ''/data/generated_images/a.png'',
      [Mkdir ''/data/generated_images'', HttpGet ''https://cdn.example/a.png'',
       WriteBytes ''/data/generated_images/a.png'' ''image-bytes''])"
  by (simp add: flaky_env_def url_defs eval_defs Let_def)

lemma flaky_b:
  "download_image_from_url flaky_env ''https://cdn.example/b.png''
      [Mkdir ''/data/generated_images'', HttpGet ''https://cdn.example/a.png'',
       WriteBytes ''/data/generated_images/a.png'' ''image-bytes'']
   = (None,
      [Mkdir ''/data/generated_images'', HttpGet ''https://cdn.example/a.png'',
       WriteBytes ''/data/generated_images/a.png'' ''image-bytes'',
       Mkdir ''/data/generated_images'', HttpGet ''https://cdn.example/b.png''])"
  by (simp add: flaky_env_def url_defs eval_defs Let_def)

lemma flaky_c:
  "download_image_from_url flaky_env ''https://cdn.example/c.png''
      [Mkdir ''/data/generated_images'', HttpGet ''https://cdn.example/a.png'',
       WriteBytes ''/data/generated_images/a.png'' ''image-bytes'',
       Mkdir ''/data/generated_images'', HttpGet ''https://cdn.example/b.png'']
   = (Some ''/data/generated_images/c.png'',
      [Mkdir ''/data/generated_images'', HttpGet ''https://cdn.example/a.png'',
       WriteBytes ''/data/generated_images/a.png'' ''image-bytes'',
       Mkdir ''/data/generated_images'', HttpGet ''https://cdn.example/b.png'',
       Mkdir ''/data/generated_images'', HttpGet ''https://cdn.example/c.png'',
       WriteBytes ''/data/generated_images/c.png'' ''image-bytes''])"
  by (simp add: flaky_env_def url_defs eval_defs Let_def)

theorem download_cap_and_order_witness:
  "download_all flaky_env
     (take 10 [''https://cdn.example/a.png'', ''https://cdn.example/b.png'', ''https://cdn.example/c.png''])
     []
   = ([''/data/generated_images/a.png'', ''/data/generated_images/c.png''],
      [Mkdir ''/data/generated_images'', HttpGet ''https://cdn.example/a.png'',
       WriteBytes ''/data/generated_images/a.png'' ''image-bytes'',
       Mkdir ''/data/generated_images'', HttpGet ''https://cdn.example/b.png'',
       Mkdir ''/data/generated_images'', HttpGet ''https://cdn.example/c.png'',
       WriteBytes ''/data/generated_images/c.png'' ''image-bytes''])
   \<and> attempts flaky_env
       [''https://cdn.example/a.png'', ''https://cdn.example/b.png'', ''https://cdn.example/c.png''] []
     = [(''https://cdn.example/a.png'', Some ''/data/generated_images/a.png''),
        (''https://cdn.example/b.png'', None),
        (''https://cdn.example/c.png'', Some ''/data/generated_images/c.png'')]
   \<and> length twelve_urls = 12
   \<and> send_imagine_result offline_env 7 twelve_urls Map.empty (Some 11)
        (Some (Message 20 7 None None None)) (Some ''done'') (Some command_message) []
     = (False, concat (map (\<lambda>url. [Mkdir ''/data/generated_images'', HttpGet url])
                         (take 10 twelve_urls)))
   \<and> fetched_urls (snd (send_imagine_result offline_env 7 twelve_urls Map.empty (Some 11)
        (Some (Message 20 7 None None None)) (Some ''done'') (Some command_message) []))
     = take 10 twelve_urls"
proof -
  have b: "attempts flaky_env
       [''https://cdn.example/a.png'', ''https://cdn.example/b.png'', ''https://cdn.example/c.png''] []
     = [(''https://cdn.example/a.png'', Some ''/data/generated_images/a.png''),
        (''https://cdn.example/b.png'', None),
        (''https://cdn.example/c.png'', Some ''/data/generated_images/c.png'')]"
    by (simp add: flaky_a flaky_b flaky_c)
  have b2: "after_attempts flaky_env
       [''https://cdn.example/a.png'', ''https://cdn.example/b.png'', ''https://cdn.example/c.png''] []
     = [Mkdir ''/data/generated_images'', HttpGet ''https://cdn.example/a.png'',
       WriteBytes ''/data/generated_images/a.png'' ''image-bytes'',
       Mkdir ''/data/generated_images'', HttpGet ''https://cdn.example/b.png'',
       Mkdir ''/data/generated_images'', HttpGet ''https://cdn.example/c.png'',
       WriteBytes ''/data/generated_images/c.png'' ''image-bytes'']"
    by (simp add: after_attempts_def flaky_a flaky_b flaky_c)
  note F = download_cap_and_order [where e = flaky_env and chat = 7
      and image_urls = "[''https://cdn.example/a.png'', ''https://cdn.example/b.png'',
                         ''https://cdn.example/c.png'']"
      and params = Map.empty and reply_to = "Some 11"
      and initial_message = "Some (Message 20 7 None None None)" and final_answer = "Some ''done''"
      and trigger_message = "Some command_message" and tr = "[]"
      and url = "''https://cdn.example/a.png''" and t = "[]"]
  note files = F [THEN conjunct2, THEN conjunct2, THEN conjunct1]
  have a: "download_all flaky_env
     (take 10 [''https://cdn.example/a.png'', ''https://cdn.example/b.png'', ''https://cdn.example/c.png''])
     []
   = ([''/data/generated_images/a.png'', ''/data/generated_images/c.png''],
      [Mkdir ''/data/generated_images'', HttpGet ''https://cdn.example/a.png'',
       WriteBytes ''/data/generated_images/a.png'' ''image-bytes'',
       Mkdir ''/data/generated_images'', HttpGet ''https://cdn.example/b.png'',
       Mkdir ''/data/generated_images'', HttpGet ''https://cdn.example/c.png'',
       WriteBytes ''/data/generated_images/c.png'' ''image-bytes''])"
    using files b b2 by (simp add: map_filter_def)
  have c: "length twelve_urls = 12"
    by (simp add: twelve_urls_def)
  have sub: "set (take 10 twelve_urls) \<subseteq> set twelve_urls"
    by (rule set_take_subset)
  note o = offline_attempts [OF sub, of "[]"]
  have d3: "List.map_filter snd (attempts offline_env (take 10 twelve_urls) []) = []"
    by (simp add: o map_filter_def)
  have d2: "after_attempts offline_env (take 10 twelve_urls) []
     = concat (map (\<lambda>url. [Mkdir ''/data/generated_images'', HttpGet url]) (take 10 twelve_urls))"
    using o by simp
  note T = download_cap_and_order [where e = offline_env and chat = 7 and image_urls = twelve_urls
      and params = Map.empty and reply_to = "Some 11"
      and initial_message = "Some (Message 20 7 None None None)" and final_answer = "Some ''done''"
      and trigger_message = "Some command_message" and tr = "[]"
      and url = "''https://cdn.example/a.png''" and t = "[]"]
  note pinned = T [THEN conjunct2, THEN conjunct2, THEN conjunct2, THEN conjunct2, THEN conjunct1]
  have d: "send_imagine_result offline_env 7 twelve_urls Map.empty (Some 11)
        (Some (Message 20 7 None None None)) (Some ''done'') (Some command_message) []
     = (False, concat (map (\<lambda>url. [Mkdir ''/data/generated_images'', HttpGet url])
                         (take 10 twelve_urls)))"
    by (simp only: pinned d2 d3 Let_def refl if_True)
  have f: "fetched_urls (snd (send_imagine_result offline_env 7 twelve_urls Map.empty (Some 11)
        (Some (Message 20 7 None None None)) (Some ''done'') (Some command_message) []))
     = take 10 twelve_urls"
    by (simp only: d snd_conv fetched_urls_attempts)
  show ?thesis
    using a b c d f by (intro conjI)
qed

text \<open>
  Claim C7.  When no download of the batch yields a file, \<open>_send_imagine_result\<close> returns
  \<open>False\<close> and has made no call on the chat transport and no delivery call at all: no
  preview, no originals, no deletion of the placeholder.
\<close>

theorem no_downloads_no_sends:
  assumes "fst (download_all e (take 10 image_urls) tr) = []"
  shows "fst (send_imagine_result e chat image_urls params reply_to initial_message final_answer
                trigger_message tr) = False
         \<and> filter is_bot_call (snd (send_imagine_result e chat image_urls params reply_to
                initial_message final_answer trigger_message tr)) = filter is_bot_call tr
         \<and> filter is_delivery_call (snd (send_imagine_result e chat image_urls params reply_to
                initial_message final_answer trigger_message tr)) = filter is_delivery_call tr"
proof -
  have b: "filter is_bot_call (snd (download_all e (take 10 image_urls) tr)) = filter is_bot_call tr"
    by (rule download_all_keeps) simp_all
  have c: "filter is_delivery_call (snd (download_all e (take 10 image_urls) tr))
           = filter is_delivery_call tr"
    by (rule download_all_keeps) simp_all
  show ?thesis
    using assms b c by (simp add: send_imagine_result_def split_beta)
qed

theorem no_downloads_no_sends_witness:
  "fst (download_all offline_env (take 10 [''https://cdn.example/a.png'', ''https://cdn.example/b.png'']) [])
     = []
   \<and> fst (send_imagine_result offline_env 7 [''https://cdn.example/a.png'', ''https://cdn.example/b.png'']
        Map.empty (Some 11) (Some (Message 20 7 None None None)) (Some ''done'')
        (Some (Message 11 7 None (Some 42) None)) []) = False
   \<and> filter is_bot_call (snd (send_imagine_result offline_env 7
        [''https://cdn.example/a.png'', ''https://cdn.example/b.png'']
        Map.empty (Some 11) (Some (Message 20 7 None None None)) (Some ''done'')
        (Some (Message 11 7 None (Some 42) None)) [])) = []"
proof -
  have h: "fst (download_all offline_env
             (take 10 [''https://cdn.example/a.png'', ''https://cdn.example/b.png'']) []) = []"
    by (simp add: offline_env_def calm_env_def download_image_from_url_def choose_filename_def
        url_filename_def urlparse_path_def split_scheme_def is_alpha_def scheme_char_def
        c0_or_space_def unsafe_url_byte_def uses_params_def lower_def lower_char_def
        splitparams_def path_name_def is_image_name_def endswith_def path_join_def
        is_ascii_def bracketed_host_def io_bind_def io_return_def perform_def)
  from no_downloads_no_sends [OF h] h show ?thesis by simp
qed

section \<open>Delivery of the originals\<close>

lemma reply_targets_append: "reply_targets (a @ b) = reply_targets a @ reply_targets b"
  by (simp add: reply_targets_def map_filter_def)

lemma reply_targets_filter:
  "reply_targets tr = map (the \<circ> send_reply_target) (filter (\<lambda>c. send_reply_target c \<noteq> None) tr)"
  by (simp add: reply_targets_def map_filter_def)

lemma read_all_reply_targets:
  "reply_targets (snd (read_all e files tr)) = reply_targets tr"
proof -
  have "keeps (\<lambda>c. send_reply_target c \<noteq> None) (read_all e files)"
    by (rule keeps_read_all) simp
  from keepsD [OF this, of tr] show ?thesis
    by (simp only: reply_targets_filter)
qed

lemma originals_attempt_targets:
  "\<exists>ts. reply_targets (snd (send_originals_attempt e chat files reply_to tr)) = reply_targets tr @ ts
        \<and> (ts = [] \<or> ts = [reply_to])"
proof (cases "\<exists>f. files = [f]")
  case True
  then obtain f where f: "files = [f]" by blast
  show ?thesis
    by (auto simp: f send_originals_attempt_def io_bind_def perform_def reply_targets_append
          reply_targets_def map_filter_def split: sum.splits)
next
  case False
  then have d: "send_originals_attempt e chat files reply_to =
      io_bind (read_all e files) (\<lambda>docs.
      io_bind (perform (bot_send_media_group e)
                 (SendMediaGroup chat (document_group files docs) reply_to)) (\<lambda>_. io_return ()))"
    by (auto simp: send_originals_attempt_def split: list.splits)
  obtain r tr1 where r: "read_all e files tr = (r, tr1)"
    by (cases "read_all e files tr")
  have t1: "reply_targets tr1 = reply_targets tr"
    using read_all_reply_targets [of e files tr] r by simp
  show ?thesis
    using r t1
    by (cases r)
       (auto simp: d io_bind_def io_return_def perform_def reply_targets_append
          reply_targets_def map_filter_def split: sum.splits)
qed

lemma send_original_files_unfold:
  "send_original_files e chat files preview trigger tr =
     (if files = [] then (False, tr)
      else
        (case send_originals_attempt e chat files (py_or preview trigger) tr of
           (Inr u, tr1) \<Rightarrow> (True, tr1)
         | (Inl err, tr1) \<Rightarrow>
             if truthy_int preview \<and> truthy_int trigger \<and> preview \<noteq> trigger
             then
               (case send_originals_attempt e chat files trigger tr1 of
                  (Inr u, tr2) \<Rightarrow> (True, tr2)
                | (Inl err2, tr2) \<Rightarrow> (False, tr2))
             else (False, tr1)))"
  apply (subst send_original_files.simps)
  apply (subst send_original_files.simps)
  apply (auto simp: truthy_int_def py_or_def split: prod.splits sum.splits option.splits)
  done

lemma send_original_files_targets:
  "\<exists>ts. reply_targets (snd (send_original_files e chat files preview trigger tr)) = reply_targets tr @ ts
        \<and> length ts \<le> 2
        \<and> (length ts = 2 \<longrightarrow>
             truthy_int preview \<and> truthy_int trigger \<and> preview \<noteq> trigger \<and> ts = [preview, trigger])"
proof (cases "files = []")
  case True
  then show ?thesis by (simp add: send_original_files_unfold)
next
  case False
  obtain r tr1 where a1: "send_originals_attempt e chat files (py_or preview trigger) tr = (r, tr1)"
    by (cases "send_originals_attempt e chat files (py_or preview trigger) tr")
  from originals_attempt_targets [of e chat files "py_or preview trigger" tr] a1
  obtain ts1 where t1: "reply_targets tr1 = reply_targets tr @ ts1"
      "ts1 = [] \<or> ts1 = [py_or preview trigger]"
    by auto
  obtain r2 tr2 where a2: "send_originals_attempt e chat files trigger tr1 = (r2, tr2)"
    by (cases "send_originals_attempt e chat files trigger tr1")
  from originals_attempt_targets [of e chat files trigger tr1] a2
  obtain ts2 where t2: "reply_targets tr2 = reply_targets tr1 @ ts2" "ts2 = [] \<or> ts2 = [trigger]"
    by auto
  show ?thesis
  proof (cases "(\<exists>err. r = Inl err) \<and> truthy_int preview \<and> truthy_int trigger \<and> preview \<noteq> trigger")
    case True
    then have "snd (send_original_files e chat files preview trigger tr) = tr2"
      using False a1 a2 by (auto simp: send_original_files_unfold split: sum.splits)
    moreover have "py_or preview trigger = preview"
      using True by (simp add: py_or_def)
    ultimately show ?thesis
      using t1 t2 True by (intro exI [of _ "ts1 @ ts2"]) auto
  next
    case nr: False
    then have "snd (send_original_files e chat files preview trigger tr) = tr1"
      using False a1 by (auto simp: send_original_files_unfold split: sum.splits)
    then show ?thesis
      using t1 by (intro exI [of _ ts1]) auto
  qed
qed

text \<open>
  Claim C5.  \<open>_send_original_files\<close> makes one attempt at the reply target
  \<open>preview_message_id or trigger_message_id\<close> and at most one more: the second attempt is
  made only after the first has failed with a preview id, a trigger id and the two
  different, in which case the first attempt replied to the preview id and the second
  replies to the trigger id.  So the sends of one call have at most two reply targets,
  and two only as preview id, then trigger id.  In the loop of \<open>_send_imagine_result\<close>, once
  the preview has been sent the result is \<open>True\<close> whatever the delivery of the originals
  returns.
\<close>

theorem originals_retry_once:
  "send_original_files e chat files preview trigger tr =
     (if files = [] then (False, tr)
      else
        (case send_originals_attempt e chat files (py_or preview trigger) tr of
           (Inr u, tr1) \<Rightarrow> (True, tr1)
         | (Inl err, tr1) \<Rightarrow>
             if truthy_int preview \<and> truthy_int trigger \<and> preview \<noteq> trigger
             then
               (case send_originals_attempt e chat files trigger tr1 of
                  (Inr u, tr2) \<Rightarrow> (True, tr2)
                | (Inl err2, tr2) \<Rightarrow> (False, tr2))
             else (False, tr1)))
   \<and> (truthy_int preview \<longrightarrow> py_or preview trigger = preview)
   \<and> (\<exists>ts. reply_targets (snd (send_original_files e chat files preview trigger tr))
              = reply_targets tr @ ts
          \<and> length ts \<le> 2
          \<and> (length ts = 2 \<longrightarrow>
               truthy_int preview \<and> truthy_int trigger \<and> preview \<noteq> trigger
               \<and> ts = [preview, trigger]))
   \<and> (\<forall>shown tr1.
         send_preview e chat files (if pm = Some HTML then caption_html else caption_markdown)
           reply_to pm initial_message earlier tr = (Inr shown, tr1)
         \<longrightarrow> try_parse_modes e chat files caption_html caption_markdown reply_to initial_message
               trigger_message (pm # pms) earlier tr
             = (True, snd (send_original_files e chat files shown
                            (map_option message_id trigger_message) tr1)))"
  using send_original_files_unfold [of e chat files preview trigger tr]
    send_original_files_targets [of e chat files preview trigger tr]
  by (simp add: Let_def split_beta py_or_def)

theorem originals_retry_once_witness:
  "send_original_files picky_env 7 [''/data/generated_images/a.png''] (Some 500) (Some 11) []
     = (True, [ReadBytes ''/data/generated_images/a.png'',
               SendDocument 7 ''image-bytes'' ''a.png'' single_label (Some 500),
               ReadBytes ''/data/generated_images/a.png'',
               SendDocument 7 ''image-bytes'' ''a.png'' single_label (Some 11)])
   \<and> reply_targets (snd (send_original_files picky_env 7 [''/data/generated_images/a.png'']
        (Some 500) (Some 11) [])) = [Some 500, Some 11]
   \<and> send_preview no_documents_env 7 [''/data/generated_images/a.png''] ''done'' (Some 11) (Some HTML)
        (Some (Message 20 7 None None None)) None []
      = (Inr (Some 500),
         [ReadBytes ''/data/generated_images/a.png'',
          SendPhoto 7 ''image-bytes'' (Some ''done'') (Some 11) (Some ''HTML''),
          DeleteMessage 7 20])
   \<and> fst (try_parse_modes no_documents_env 7 [''/data/generated_images/a.png''] ''done'' ''done''
        (Some 11) (Some (Message 20 7 None None None)) (Some (Message 11 7 None (Some 42) None))
        [Some HTML, Some MARKDOWN_V2, None] None []) = True
   \<and> fst (send_original_files no_documents_env 7 [''/data/generated_images/a.png''] (Some 500) (Some 11)
        [ReadBytes ''/data/generated_images/a.png'',
         SendPhoto 7 ''image-bytes'' (Some ''done'') (Some 11) (Some ''HTML''),
         DeleteMessage 7 20]) = False"
proof -
  have p: "send_preview no_documents_env 7 [''/data/generated_images/a.png''] ''done'' (Some 11)
        (Some HTML) (Some (Message 20 7 None None None)) None []
      = (Inr (Some 500),
         [ReadBytes ''/data/generated_images/a.png'',
          SendPhoto 7 ''image-bytes'' (Some ''done'') (Some 11) (Some ''HTML''),
          DeleteMessage 7 20])"
    by (simp add: no_documents_env_def eval_defs)
  note a = originals_retry_once [where e = picky_env and chat = 7
      and files = "[''/data/generated_images/a.png'']" and preview = "Some 500"
      and trigger = "Some 11" and tr = "[]"]
  note b = originals_retry_once [where e = no_documents_env and chat = 7
      and files = "[''/data/generated_images/a.png'']" and tr = "[]" and pm = "Some HTML"
      and caption_html = "''done''" and caption_markdown = "''done''" and reply_to = "Some 11"
      and initial_message = "Some (Message 20 7 None None None)" and earlier = None
      and trigger_message = "Some (Message 11 7 None (Some 42) None)"
      and pms = "[Some MARKDOWN_V2, None]"]
  have c: "fst (send_original_files no_documents_env 7 [''/data/generated_images/a.png''] (Some 500)
        (Some 11)
        [ReadBytes ''/data/generated_images/a.png'',
         SendPhoto 7 ''image-bytes'' (Some ''done'') (Some 11) (Some ''HTML''),
         DeleteMessage 7 20]) = False"
    by (simp add: send_original_files_unfold no_documents_env_def eval_defs)
  have d: "send_original_files picky_env 7 [''/data/generated_images/a.png''] (Some 500) (Some 11) []
     = (True, [ReadBytes ''/data/generated_images/a.png'',
               SendDocument 7 ''image-bytes'' ''a.png'' single_label (Some 500),
               ReadBytes ''/data/generated_images/a.png'',
               SendDocument 7 ''image-bytes'' ''a.png'' single_label (Some 11)])"
    using a by (simp add: picky_env_def eval_defs)
  have e: "fst (try_parse_modes no_documents_env 7 [''/data/generated_images/a.png''] ''done'' ''done''
        (Some 11) (Some (Message 20 7 None None None)) (Some (Message 11 7 None (Some 42) None))
        [Some HTML, Some MARKDOWN_V2, None] None []) = True"
    using b p by (simp add: Let_def)
  show ?thesis
    using p c d e by (simp add: reply_targets_def map_filter_def)
qed

section \<open>The handler's validation and default prompt\<close>

lemma keeps_collect:
  assumes "\<And>c. is_aggregator_call c \<Longrightarrow> \<not> P c"
  shows "keeps P (collect_media_group_files e m)"
  by (rule keepsI)
     (simp add: collect_media_group_files_def perform_def Let_def assms
        split: prod.splits option.splits list.splits)

lemma keeps_gather:
  assumes "\<And>c. is_aggregator_call c \<Longrightarrow> \<not> P c"
  shows "keeps P (gather_media e m)"
proof (rule keepsI)
  fix tr
  obtain own tr1 where c1: "collect_media_group_files e m tr = (own, tr1)"
    by (cases "collect_media_group_files e m tr")
  have k1: "filter P tr1 = filter P tr"
    using keepsD2 [OF keeps_collect [OF assms] c1] .
  show "filter P (snd (gather_media e m tr)) = filter P tr"
  proof (cases "reply_to_message m")
    case None
    then show ?thesis using c1 k1 by (simp add: gather_media_def)
  next
    case (Some r)
    have "filter P (snd (collect_media_group_files e r tr1)) = filter P tr1"
      using keepsD [OF keeps_collect [OF assms]] .
    then show ?thesis using Some c1 k1 by (simp add: gather_media_def split_beta)
  qed
qed

lemma collect_has_media:
  "fst (snd (fst (collect_media_group_files e m tr)))
   = (case fst (fst (collect_media_group_files e m tr)) of None \<Rightarrow> False | Some d \<Rightarrow> dict_has_media d)"
  by (simp add: collect_media_group_files_def perform_def Let_def dict_has_media_def
      split: prod.splits option.splits list.splits)

lemma gather_has_media:
  "fst (snd (fst (gather_media e m tr)))
   = (fst (snd (fst (collect_media_group_files e m tr)))
      \<or> (case reply_to_message m of
            None \<Rightarrow> False
          | Some r \<Rightarrow> fst (snd (fst (collect_media_group_files e r
                                       (snd (collect_media_group_files e m tr)))))))"
proof (cases "reply_to_message m")
  case None
  then show ?thesis by (simp add: gather_media_def split_beta)
next
  case (Some r)
  let ?tr1 = "snd (collect_media_group_files e m tr)"
  have h: "fst (snd (fst (collect_media_group_files e r ?tr1)))
   = (case fst (fst (collect_media_group_files e r ?tr1)) of None \<Rightarrow> False | Some d \<Rightarrow> dict_has_media d)"
    by (rule collect_has_media)
  show ?thesis
    using Some h
    by (cases "collect_media_group_files e m tr"; cases "collect_media_group_files e r ?tr1")
       (auto simp: gather_media_def merge_reply_media_def Let_def dict_has_media_def
          split: option.splits list.splits prod.splits)
qed

lemmas handler_defs =
  command_update_def command_message_def bare_context_def match_context_def command_prompt_def
  gather_media_def collect_media_group_files_def truthy_str_def merge_reply_media_def
  dict_has_media_def dict_get_def

text \<open>
  Claim C9.  When the command has passed the handler's gates (no inline query, not
  ignored in a group, a message and a chat found), its prompt is empty and the media
  gathered from the command message and the replied-to message is none (\<open>has_media\<close> is
  \<open>False\<close>; by \<open>gather_has_media\<close> that is: neither collection found media), the handler
  makes one more call, the usage message to the chat in reply to the command, and
  returns.  The collaborator is not invoked, and the whole run holds no other call on
  the transport, no asset download and no delivery call.
\<close>

theorem usage_when_nothing_given:
  assumes "\<not> inline_query update"
    and "\<not> should_ignore_command_in_group e update context"
    and "match_context update = (Some message, Some chat)"
    and "command_prompt context = []"
    and "gather_media e message tr = ((media_files, False, photo_paths), tr1)"
  shows "imagine_command e update context tr
           = (Inr (), tr1 @ [SendMessage chat help_text (Some ''HTML'') (Some (message_id message))])
         \<and> filter is_generation_call tr1 = filter is_generation_call tr
         \<and> filter is_bot_call tr1 = filter is_bot_call tr
         \<and> filter is_delivery_call tr1 = filter is_delivery_call tr
         \<and> filter is_download_call tr1 = filter is_download_call tr"
proof -
  have g: "filter is_generation_call tr1 = filter is_generation_call tr"
    by (rule keepsD2 [OF keeps_gather assms(5)]) (case_tac c, simp_all)
  have b: "filter is_bot_call tr1 = filter is_bot_call tr"
    by (rule keepsD2 [OF keeps_gather assms(5)]) (case_tac c, simp_all)
  have d: "filter is_delivery_call tr1 = filter is_delivery_call tr"
    by (rule keepsD2 [OF keeps_gather assms(5)]) (case_tac c, simp_all)
  have l: "filter is_download_call tr1 = filter is_download_call tr"
    by (rule keepsD2 [OF keeps_gather assms(5)]) (case_tac c, simp_all)
  have "imagine_command e update context tr
           = (Inr (), tr1 @ [SendMessage chat help_text (Some ''HTML'') (Some (message_id message))])"
    using assms by (simp add: imagine_command_def reply_help_def perform_def)
  with g b d l show ?thesis by simp
qed

theorem usage_when_nothing_given_witness:
  "\<not> inline_query command_update
   \<and> \<not> should_ignore_command_in_group calm_env command_update bare_context
   \<and> match_context command_update = (Some command_message, Some 7)
   \<and> command_prompt bare_context = []
   \<and> gather_media calm_env command_message []
       = ((None, False, []), [CacheAdd command_message, DownloadGroup command_message])
   \<and> imagine_command calm_env command_update bare_context []
       = (Inr (), [CacheAdd command_message, DownloadGroup command_message,
                   SendMessage 7 help_text (Some ''HTML'') (Some 11)])"
proof -
  have h1: "\<not> inline_query command_update"
    by (simp add: command_update_def)
  have h2: "\<not> should_ignore_command_in_group calm_env command_update bare_context"
    by (simp add: calm_env_def)
  have h3: "match_context command_update = (Some command_message, Some 7)"
    by (simp add: handler_defs)
  have h4: "command_prompt bare_context = []"
    by (simp add: handler_defs)
  have h5: "gather_media calm_env command_message []
       = ((None, False, []), [CacheAdd command_message, DownloadGroup command_message])"
    by (simp add: handler_defs calm_env_def perform_def)
  have m: "message_id command_message = 11"
    by (simp add: command_message_def)
  from usage_when_nothing_given [OF h1 h2 h3 h4 h5] h1 h2 h3 h4 h5 m
  show ?thesis by simp
qed

text \<open>
  Claim C10.  When the prompt is empty and media was gathered, the one invocation of
  the generation collaborator carries the default prompt, the UTF-8 text of the source's
  literal, which is not empty.
\<close>

theorem default_prompt_for_media_only:
  assumes "\<not> inline_query update"
    and "\<not> should_ignore_command_in_group e update context"
    and "match_context update = (Some message, Some chat)"
    and "command_prompt context = []"
    and "gather_media e message tr = ((media_files, True, photo_paths), tr1)"
  shows "filter is_invoke_call (snd (imagine_command e update context tr))
         = filter is_invoke_call tr
           @ [InvokeModelStreaming (rstrip_at (bot_username context)) default_prompt
                (case from_user message of Some uid \<Rightarrow> str_int uid | None \<Rightarrow> ''unknown'')
                photo_paths media_files IMAGINE]
         \<and> default_prompt \<noteq> []"
proof -
  have g: "filter is_invoke_call tr1 = filter is_invoke_call tr"
    by (rule keepsD2 [OF keeps_gather assms(5)]) (case_tac c, simp_all)
  show ?thesis
    using assms g
    by (auto simp: imagine_command_def reply_help_def reply_emoji_reaction_def perform_def
          io_catch_def io_bind_def Let_def default_prompt_def split: sum.splits)
qed

theorem default_prompt_for_media_only_witness:
  "\<not> inline_query command_update
   \<and> \<not> should_ignore_command_in_group photo_env command_update bare_context
   \<and> match_context command_update = (Some command_message, Some 7)
   \<and> command_prompt bare_context = []
   \<and> gather_media photo_env command_message []
       = ((Some [(''photos'', [''/data/downloads/p1.jpg''])], True, [''/data/downloads/p1.jpg'']),
          [CacheAdd command_message, DownloadGroup command_message])
   \<and> filter is_invoke_call (snd (imagine_command photo_env command_update bare_context []))
       = [InvokeModelStreaming ''imagine_bot'' default_prompt ''42'' [''/data/downloads/p1.jpg'']
            (Some [(''photos'', [''/data/downloads/p1.jpg''])]) IMAGINE]"
proof -
  have h1: "\<not> inline_query command_update"
    by (simp add: command_update_def)
  have h2: "\<not> should_ignore_command_in_group photo_env command_update bare_context"
    by (simp add: photo_env_def calm_env_def)
  have h3: "match_context command_update = (Some command_message, Some 7)"
    by (simp add: handler_defs)
  have h4: "command_prompt bare_context = []"
    by (simp add: handler_defs)
  have h5: "gather_media photo_env command_message []
       = ((Some [(''photos'', [''/data/downloads/p1.jpg''])], True, [''/data/downloads/p1.jpg'']),
          [CacheAdd command_message, DownloadGroup command_message])"
    by (simp add: handler_defs photo_env_def calm_env_def perform_def)
  have m: "from_user command_message = Some 42" "rstrip_at (bot_username bare_context) = ''imagine_bot''"
    "str_int 42 = ''42''"
    by (simp_all add: command_message_def bare_context_def rstrip_at_def str_int_def digit_char_def)
  from default_prompt_for_media_only [OF h1 h2 h3 h4 h5] h1 h2 h3 h4 h5 m
  show ?thesis by simp
qed

section \<open>The preview and the placeholder\<close>

text \<open>
  What the single-photo helper does when the placeholder can be deleted: a sent photo is
  returned after the deletion; a captioned send refused as too long is followed by one
  send without caption and without parse mode, and by the deletion when that send
  succeeds.
\<close>

lemma single_photo_sent_and_placeholder_deleted:
  assumes "bot_send_photo e (tr @ [SendPhoto chat photo (Some caption) reply_to (Some pm)]) = Inr sent"
    and "bot_delete_message e (tr @ [SendPhoto chat photo (Some caption) reply_to (Some pm),
           DeleteMessage chat del]) = Inr u"
  shows "send_single_photo_with_caption e chat caption reply_to pm del photo tr
         = (Inr sent, tr @ [SendPhoto chat photo (Some caption) reply_to (Some pm),
                            DeleteMessage chat del])"
  using assms
  by (simp add: send_single_photo_with_caption_def io_catch_def io_bind_def io_return_def perform_def)

lemma single_photo_caption_retry:
  assumes "bot_send_photo e (tr @ [SendPhoto chat photo (Some caption) reply_to (Some pm)]) = Inl err"
    and "contains caption_too_long err"
  shows "send_single_photo_with_caption e chat caption reply_to pm del photo tr
         = (case bot_send_photo e (tr @ [SendPhoto chat photo (Some caption) reply_to (Some pm),
                                         SendPhoto chat photo None reply_to None]) of
              Inl err2 \<Rightarrow>
                (Inl err2, tr @ [SendPhoto chat photo (Some caption) reply_to (Some pm),
                                 SendPhoto chat photo None reply_to None])
            | Inr sent \<Rightarrow>
                (case bot_delete_message e
                        (tr @ [SendPhoto chat photo (Some caption) reply_to (Some pm),
                               SendPhoto chat photo None reply_to None, DeleteMessage chat del]) of
                   Inl err3 \<Rightarrow>
                     (Inl err3, tr @ [SendPhoto chat photo (Some caption) reply_to (Some pm),
                                      SendPhoto chat photo None reply_to None, DeleteMessage chat del])
                 | Inr u \<Rightarrow>
                     (Inr sent, tr @ [SendPhoto chat photo (Some caption) reply_to (Some pm),
                                      SendPhoto chat photo None reply_to None, DeleteMessage chat del])))"
  using assms
  by (simp add: send_single_photo_with_caption_def io_catch_def io_bind_def io_return_def perform_def
      split: sum.splits)

text \<open>
  Claim C3, at an input where the code leaves it.  One image is downloaded, every send
  succeeds, and the deletion of the placeholder message fails.  \<open>delete_message\<close> stands
  inside the \<open>try\<close> of \<open>_send_single_photo_with_caption\<close>, so its failure reaches the loop
  as a failure of the send: the preview, already sent with HTML, is sent again with
  MarkdownV2 and once more with the parse mode \<open>str(None)\<close>, the result is \<open>False\<close> and
  the originals are never sent.
\<close>

theorem preview_resent_after_failed_delete:
  "send_imagine_result stuck_placeholder_env 7 [''https://cdn.example/a.png''] Map.empty (Some 11)
     (Some (Message 20 7 None None None)) (Some ''done'') (Some command_message) []
   = (False,
      [Mkdir ''/data/generated_images'',
       HttpGet ''https://cdn.example/a.png'',
       WriteBytes ''/data/generated_images/a.png'' ''image-bytes'',
       ReadBytes ''/data/generated_images/a.png'',
       SendPhoto 7 ''image-bytes'' (Some ''done'') (Some 11) (Some ''HTML''),
       DeleteMessage 7 20,
       ReadBytes ''/data/generated_images/a.png'',
       SendPhoto 7 ''image-bytes'' (Some ''done'') (Some 11) (Some ''MarkdownV2''),
       DeleteMessage 7 20,
       ReadBytes ''/data/generated_images/a.png'',
       SendPhoto 7 ''image-bytes'' (Some ''done'') (Some 11) (Some ''None''),
       DeleteMessage 7 20])"
  by (simp add: send_imagine_result_def captions_def parse_modes_def stuck_placeholder_env_def
      url_defs eval_defs Let_def)

text \<open>
  Claim C4, at an input where the code leaves it.  The captioned send is refused as too
  long, the retry without caption succeeds, and the deletion of the placeholder fails.
  The failure of the deletion leaves the helper from inside its handler, the loop takes
  it for a failed send and goes on to the next parse mode: three previews without caption
  are sent, the result is \<open>False\<close> and the originals are never sent.
\<close>

theorem caption_retry_lost_after_failed_delete:
  "send_imagine_result long_caption_env 7 [''https://cdn.example/a.png''] Map.empty (Some 11)
     (Some (Message 20 7 None None None)) (Some ''done'') (Some command_message) []
   = (False,
      [Mkdir ''/data/generated_images'',
       HttpGet ''https://cdn.example/a.png'',
       WriteBytes ''/data/generated_images/a.png'' ''image-bytes'',
       ReadBytes ''/data/generated_images/a.png'',
       SendPhoto 7 ''image-bytes'' (Some ''done'') (Some 11) (Some ''HTML''),
       SendPhoto 7 ''image-bytes'' None (Some 11) None,
       DeleteMessage 7 20,
       ReadBytes ''/data/generated_images/a.png'',
       SendPhoto 7 ''image-bytes'' (Some ''done'') (Some 11) (Some ''MarkdownV2''),
       SendPhoto 7 ''image-bytes'' None (Some 11) None,
       DeleteMessage 7 20,
       ReadBytes ''/data/generated_images/a.png'',
       SendPhoto 7 ''image-bytes'' (Some ''done'') (Some 11) (Some ''None''),
       SendPhoto 7 ''image-bytes'' None (Some 11) None,
       DeleteMessage 7 20])"
  by (simp add: send_imagine_result_def captions_def parse_modes_def long_caption_env_def
      stuck_placeholder_env_def url_defs eval_defs)

section \<open>Merging the reply's media\<close>

lemma dict_get_update:
  "dict_get (AList.update k v d) k' = (if k' = k then v else dict_get d k')"
  by (simp add: dict_get_def update_conv')

lemma map_of_update_None:
  "(map_of (AList.update k v d) k' = None) = (k' \<noteq> k \<and> map_of d k' = None)"
  by (simp add: update_conv')

lemma dict_get_extend_kind:
  "dict_get (extend_kind (k, paths) d) k' = (if k' = k then dict_get d k' @ paths else dict_get d k')"
  by (simp add: extend_kind_def Let_def dict_get_update) (simp add: dict_get_def)

lemma keys_extend_kind:
  "(map_of (extend_kind (k, paths) d) k' = None)
   = (map_of d k' = None \<and> \<not> (k' = k \<and> paths \<noteq> []))"
  by (auto simp: extend_kind_def Let_def map_of_update_None)

lemma dict_get_absent:
  assumes "k \<notin> fst ` set d"
  shows "dict_get d k = []"
proof -
  have "map_of d k = None"
    using assms by (simp add: map_of_eq_None_iff)
  then show ?thesis by (simp add: dict_get_def)
qed

lemma dict_get_fold:
  "distinct (map fst rd) \<Longrightarrow>
   dict_get (fold extend_kind rd md) k = dict_get md k @ dict_get rd k"
proof (induction rd arbitrary: md)
  case Nil
  show ?case by (simp add: dict_get_def)
next
  case (Cons item rd)
  obtain k0 paths where item: "item = (k0, paths)" by (cases item)
  from Cons.prems item have d: "distinct (map fst rd)" and n: "k0 \<notin> fst ` set rd"
    by auto
  have tail: "dict_get ((k0, paths) # rd) k = (if k = k0 then paths else dict_get rd k)"
    by (simp add: dict_get_def)
  show ?case
    using Cons.IH [OF d, of "extend_kind (k0, paths) md"] dict_get_absent [OF n]
    by (simp add: item tail dict_get_extend_kind)
qed

lemma keys_fold:
  "distinct (map fst rd) \<Longrightarrow>
   (map_of (fold extend_kind rd md) k = None) = (map_of md k = None \<and> dict_get rd k = [])"
proof (induction rd arbitrary: md)
  case Nil
  show ?case by (simp add: dict_get_def)
next
  case (Cons item rd)
  obtain k0 paths where item: "item = (k0, paths)" by (cases item)
  from Cons.prems item have d: "distinct (map fst rd)" and n: "k0 \<notin> fst ` set rd"
    by auto
  have tail: "dict_get ((k0, paths) # rd) k = (if k = k0 then paths else dict_get rd k)"
    by (simp add: dict_get_def)
  show ?case
    using Cons.IH [OF d, of "extend_kind (k0, paths) md"] dict_get_absent [OF n]
    by (auto simp: item tail keys_extend_kind)
qed

lemma dict_has_media_nonempty: "dict_has_media d \<Longrightarrow> d \<noteq> []"
  by (auto simp: dict_has_media_def)

text \<open>
  Claim C6, as the code has it.  When the command's own media and the reply's both hold
  at least one file, the merged dictionary has, for every kind, the command's list
  followed by the reply's list (a missing key reads as the empty list), and its keys are
  the command's keys together with the reply's kinds that have at least one file: the
  loop skips a reply kind with an empty list (\<open>if paths:\<close>), so such a kind is not
  added as a key.  The reply's dictionary has distinct keys, as any dictionary.
\<close>

theorem merged_media_concat:
  assumes "dict_has_media md" and "dict_has_media rd" and "distinct (map fst rd)"
  shows "\<exists>merged photos.
           merge_reply_media (Some md, dict_has_media md, photo_paths) (Some rd, dict_has_media rd)
             = (Some merged, True, photos)
           \<and> (\<forall>k. dict_get merged k = dict_get md k @ dict_get rd k)
           \<and> (\<forall>k. (map_of merged k \<noteq> None) = (map_of md k \<noteq> None \<or> dict_get rd k \<noteq> []))"
proof -
  obtain m ms where md: "md = m # ms"
    using dict_has_media_nonempty [OF assms(1)] by (cases md) auto
  obtain kv kvs where rd: "rd = kv # kvs"
    using dict_has_media_nonempty [OF assms(2)] by (cases rd) auto
  obtain mf hm photos where r: "merge_reply_media (Some md, dict_has_media md, photo_paths)
      (Some rd, dict_has_media rd) = (mf, hm, photos)"
    by (cases "merge_reply_media (Some md, dict_has_media md, photo_paths) (Some rd, dict_has_media rd)")
  have mf: "mf = Some (fold extend_kind rd md)" and hm: "hm = True"
    using r assms(1,2) unfolding md rd
    by (simp_all add: merge_reply_media_def Let_def)
  have g: "\<forall>k. dict_get (fold extend_kind rd md) k = dict_get md k @ dict_get rd k"
    using dict_get_fold [OF assms(3)] by simp
  have k: "\<forall>k. (map_of (fold extend_kind rd md) k \<noteq> None)
               = (map_of md k \<noteq> None \<or> dict_get rd k \<noteq> [])"
    by (simp add: keys_fold [OF assms(3)])
  show ?thesis
    using r mf hm g k by blast
qed

theorem merged_media_concat_witness:
  "dict_has_media own_photo \<and> dict_has_media reply_photo_and_empty_kind
   \<and> distinct (map fst reply_photo_and_empty_kind)
   \<and> fst (merge_reply_media (Some own_photo, dict_has_media own_photo, [''/data/downloads/p1.jpg''])
            (Some reply_photo_and_empty_kind, dict_has_media reply_photo_and_empty_kind))
      = Some [(''photos'', [''/data/downloads/p1.jpg'', ''/data/downloads/r1.jpg''])]"
proof -
  have h1: "dict_has_media own_photo"
    by (simp add: own_photo_def dict_has_media_def)
  have h2: "dict_has_media reply_photo_and_empty_kind"
    by (simp add: reply_photo_and_empty_kind_def dict_has_media_def)
  have h3: "distinct (map fst reply_photo_and_empty_kind)"
    by (simp add: reply_photo_and_empty_kind_def)
  from merged_media_concat [OF h1 h2 h3, of "[''/data/downloads/p1.jpg'']"]
  have "fst (merge_reply_media (Some own_photo, dict_has_media own_photo, [''/data/downloads/p1.jpg''])
            (Some reply_photo_and_empty_kind, dict_has_media reply_photo_and_empty_kind))
      = Some [(''photos'', [''/data/downloads/p1.jpg'', ''/data/downloads/r1.jpg''])]"
    by (simp add: own_photo_def reply_photo_and_empty_kind_def merge_reply_media_def
        dict_has_media_def extend_kind_def dict_get_def Let_def)
  with h1 h2 h3 show ?thesis by simp
qed

text \<open>
  Claim C6 as stated fails for a kind that the reply holds with an empty list: it is
  present only in the reply and is not a key of the merged dictionary.
\<close>

theorem reply_only_kind_not_added:
  "dict_has_media own_photo \<and> dict_has_media reply_photo_and_empty_kind
   \<and> map_of reply_photo_and_empty_kind ''documents'' = Some []
   \<and> map_of own_photo ''documents'' = None
   \<and> merge_reply_media (Some own_photo, True, [''/data/downloads/p1.jpg''])
        (Some reply_photo_and_empty_kind, True)
      = (Some [(''photos'', [''/data/downloads/p1.jpg'', ''/data/downloads/r1.jpg''])], True,
         [''/data/downloads/p1.jpg'', ''/data/downloads/r1.jpg'', ''/data/downloads/r1.jpg''])
   \<and> map_of [(''photos'', [''/data/downloads/p1.jpg'', ''/data/downloads/r1.jpg''])] ''documents''
      = None"
  by (simp add: own_photo_def reply_photo_and_empty_kind_def merge_reply_media_def
      dict_has_media_def extend_kind_def dict_get_def Let_def)

section \<open>Target file names\<close>

text \<open>A URL whose bracketed host the library's test refuses: \<open>urlparse\<close> raises, and the
  download ends after the directory has been made, without a request.\<close>

lemma bracketed_host_refused:
  "download_image_from_url calm_env ''http://[x]/a.png'' [] = (None, [Mkdir ''/data/generated_images''])"
  by (simp add: url_defs eval_defs Let_def)

lemma path_join_inject: "(path_join d a = path_join d b) = (a = b)"
  by (simp add: path_join_def)

lemma download_target:
  assumes "fst (download_image_from_url e url tr) = Some f"
  shows "\<exists>name. url_filename e url = Inr name
           \<and> f = path_join (path_join (DATA_DIR e) ''generated_images'')
                   (if name \<noteq> [] \<and> is_image_name name then name
                    else uuid4_hex e (tr @ [Mkdir (path_join (DATA_DIR e) ''generated_images''), Uuid4])
                         @ ''.jpeg'')"
  using assms
  by (cases "url_filename e url")
     (auto simp: download_image_from_url_def choose_filename_def io_bind_def io_return_def
        perform_def Let_def split: prod.splits sum.splits if_splits)

text \<open>
  Claim C8, as the code has it.  A download that returns a file has written it to
  \<open>DATA_DIR/generated_images\<close> under the last component of the URL's path when that is
  not empty and ends, in any letter case, in \<open>.jpg\<close>, \<open>.jpeg\<close>, \<open>.png\<close> or \<open>.webp\<close>, and
  else under the hex digits of a fresh UUID with \<open>.jpeg\<close>.  Two downloads whose URL names
  are both of the first kind get the same target exactly when the names are equal; two
  of the second kind exactly when the generated ids are equal.
\<close>

theorem target_names:
  assumes "fst (download_image_from_url e url1 tr1) = Some f1"
    and "fst (download_image_from_url e url2 tr2) = Some f2"
  shows "\<exists>name1 name2.
           url_filename e url1 = Inr name1 \<and> url_filename e url2 = Inr name2
           \<and> f1 = path_join (path_join (DATA_DIR e) ''generated_images'')
                   (if name1 \<noteq> [] \<and> is_image_name name1 then name1
                    else uuid4_hex e (tr1 @ [Mkdir (path_join (DATA_DIR e) ''generated_images''), Uuid4])
                         @ ''.jpeg'')
           \<and> f2 = path_join (path_join (DATA_DIR e) ''generated_images'')
                   (if name2 \<noteq> [] \<and> is_image_name name2 then name2
                    else uuid4_hex e (tr2 @ [Mkdir (path_join (DATA_DIR e) ''generated_images''), Uuid4])
                         @ ''.jpeg'')
           \<and> (name1 \<noteq> [] \<and> is_image_name name1 \<and> name2 \<noteq> [] \<and> is_image_name name2
                \<longrightarrow> (f1 = f2) = (name1 = name2))
           \<and> (\<not> (name1 \<noteq> [] \<and> is_image_name name1) \<and> \<not> (name2 \<noteq> [] \<and> is_image_name name2)
                \<longrightarrow> (f1 = f2)
                    = (uuid4_hex e (tr1 @ [Mkdir (path_join (DATA_DIR e) ''generated_images''), Uuid4])
                       = uuid4_hex e (tr2 @ [Mkdir (path_join (DATA_DIR e) ''generated_images''), Uuid4])))"
proof -
  from download_target [OF assms(1)] obtain name1 where
    n1: "url_filename e url1 = Inr name1"
    and f1: "f1 = path_join (path_join (DATA_DIR e) ''generated_images'')
                   (if name1 \<noteq> [] \<and> is_image_name name1 then name1
                    else uuid4_hex e (tr1 @ [Mkdir (path_join (DATA_DIR e) ''generated_images''), Uuid4])
                         @ ''.jpeg'')"
    by blast
  from download_target [OF assms(2)] obtain name2 where
    n2: "url_filename e url2 = Inr name2"
    and f2: "f2 = path_join (path_join (DATA_DIR e) ''generated_images'')
                   (if name2 \<noteq> [] \<and> is_image_name name2 then name2
                    else uuid4_hex e (tr2 @ [Mkdir (path_join (DATA_DIR e) ''generated_images''), Uuid4])
                         @ ''.jpeg'')"
    by blast
  show ?thesis
    apply (rule exI [of _ name1])
    apply (rule exI [of _ name2])
    using n1 n2 f1 f2 by (auto simp: path_join_inject)
qed

theorem target_names_witness:
  "fst (download_image_from_url calm_env ''https://cdn.example/a.png'' [])
     = Some ''/data/generated_images/a.png''
   \<and> fst (download_image_from_url calm_env ''https://cdn.example/b.png'' [])
     = Some ''/data/generated_images/b.png''
   \<and> url_filename calm_env ''https://cdn.example/a.png'' = Inr ''a.png''
   \<and> url_filename calm_env ''https://cdn.example/b.png'' = Inr ''b.png''
   \<and> is_image_name ''a.png'' \<and> is_image_name ''b.png''"
proof -
  have h1: "fst (download_image_from_url calm_env ''https://cdn.example/a.png'' [])
     = Some ''/data/generated_images/a.png''"
    by (simp add: url_defs eval_defs)
  have h2: "fst (download_image_from_url calm_env ''https://cdn.example/b.png'' [])
     = Some ''/data/generated_images/b.png''"
    by (simp add: url_defs eval_defs)
  have n: "url_filename calm_env ''https://cdn.example/a.png'' = Inr ''a.png''"
    "url_filename calm_env ''https://cdn.example/b.png'' = Inr ''b.png''"
    "is_image_name ''a.png''" "is_image_name ''b.png''"
    by (simp_all add: url_defs path_name_def calm_env_def)
  from target_names [OF h1 h2] h1 h2 n show ?thesis by simp
qed

text \<open>
  Claim C8 as stated fails: two different URLs with the same last path component get
  the same target, and the second download overwrites the first.
\<close>

theorem same_name_collides:
  "''https://cdn.example/a/out.png'' \<noteq> ''https://cdn.example/b/out.png''
   \<and> download_all calm_env [''https://cdn.example/a/out.png'', ''https://cdn.example/b/out.png''] []
     = ([''/data/generated_images/out.png'', ''/data/generated_images/out.png''],
        [Mkdir ''/data/generated_images'',
         HttpGet ''https://cdn.example/a/out.png'',
         WriteBytes ''/data/generated_images/out.png'' ''image-bytes'',
         Mkdir ''/data/generated_images'',
         HttpGet ''https://cdn.example/b/out.png'',
         WriteBytes ''/data/generated_images/out.png'' ''image-bytes''])"
  by (simp add: url_defs eval_defs)

end
